theory Spec2Isabelle
  imports Main "HOL-Library.AList"
begin

text \<open>
  A model of the job subsystem of the Claude Code manager (\<^verbatim>\<open>src/jobs/store.ts\<close>,
  \<^verbatim>\<open>src/jobs/job-manager.ts\<close>) and of its loop executor (\<^verbatim>\<open>src/executors/loop.ts\<close>,
  \<^verbatim>\<open>src/ralph/prd.ts\<close>, \<^verbatim>\<open>src/ralph/progress.ts\<close>). Objects are records, the state a
  method changes is passed in and returned, what a method throws is a value, and the clock
  is an argument of every operation that reads it. The worker process is a function that
  gives the result of each call.
\<close>

section \<open>Backlog (PRD) of a loop job\<close>

text \<open>
  \<^verbatim>\<open>UserStory\<close> and \<^verbatim>\<open>PRDSpec\<close> of \<^verbatim>\<open>src/types.ts\<close>. The numeric fields are modelled
  as integers; \<^verbatim>\<open>id\<close> is written \<open>sid\<close>.
\<close>

record user_story =
  sid :: string
  title :: string
  description :: string
  acceptanceCriteria :: "string list"
  priority :: int
  estimatedComplexity :: int
  passes :: bool

record prd_spec =
  project :: string
  branchName :: string
  prdDescription :: string
  userStories :: "user_story list"

text \<open>\<^verbatim>\<open>Partial<UserStory>\<close>: every field may be absent.\<close>

record story_updates =
  newSid :: "string option"
  newTitle :: "string option"
  newDescription :: "string option"
  newAcceptanceCriteria :: "string list option"
  newPriority :: "int option"
  newEstimatedComplexity :: "int option"
  newPasses :: "bool option"

definition noUpdates :: story_updates where
  "noUpdates = \<lparr>newSid = None, newTitle = None, newDescription = None,
     newAcceptanceCriteria = None, newPriority = None, newEstimatedComplexity = None,
     newPasses = None\<rparr>"

definition getUserStories :: "prd_spec \<Rightarrow> user_story list" where
  "getUserStories spec = userStories spec"

text \<open>
  \<^verbatim>\<open>PRD.getNextStory\<close>: filter the incomplete stories, sort the filtered copy by priority
  with the stable sort of the language, and return its first element, or null when
  nothing is incomplete. \<^const>\<open>sort_key\<close> is a stable insertion sort. The method sorts a
  copy, so the backlog itself is left as it was: the model returns the story only.
\<close>

definition getNextStory :: "prd_spec \<Rightarrow> user_story option" where
  "getNextStory spec =
     (let incomplete = filter (\<lambda>s. \<not> passes s) (userStories spec)
      in if length incomplete = 0 then None
         else Some (hd (sort_key priority incomplete)))"

text \<open>A call of \<^verbatim>\<open>getNextStory\<close> as a state transformer, and \<open>n\<close> calls in a row.\<close>

definition getNextStory_call :: "prd_spec \<Rightarrow> user_story option \<times> prd_spec" where
  "getNextStory_call spec = (getNextStory spec, spec)"

fun getNextStory_calls :: "nat \<Rightarrow> prd_spec \<Rightarrow> user_story option list \<times> prd_spec" where
  "getNextStory_calls 0 spec = ([], spec)"
| "getNextStory_calls (Suc n) spec =
     (let (r, spec1) = getNextStory_call spec;
          (rs, spec2) = getNextStory_calls n spec1
      in (r # rs, spec2))"

text \<open>\<^verbatim>\<open>Object.assign(story, updates)\<close>.\<close>

definition assignStory :: "story_updates \<Rightarrow> user_story \<Rightarrow> user_story" where
  "assignStory u s =
     \<lparr>sid = (case newSid u of Some v \<Rightarrow> v | None \<Rightarrow> sid s),
      title = (case newTitle u of Some v \<Rightarrow> v | None \<Rightarrow> title s),
      description = (case newDescription u of Some v \<Rightarrow> v | None \<Rightarrow> description s),
      acceptanceCriteria =
        (case newAcceptanceCriteria u of Some v \<Rightarrow> v | None \<Rightarrow> acceptanceCriteria s),
      priority = (case newPriority u of Some v \<Rightarrow> v | None \<Rightarrow> priority s),
      estimatedComplexity =
        (case newEstimatedComplexity u of Some v \<Rightarrow> v | None \<Rightarrow> estimatedComplexity s),
      passes = (case newPasses u of Some v \<Rightarrow> v | None \<Rightarrow> passes s)\<rparr>"

text \<open>
  \<^verbatim>\<open>PRD.updateStory\<close>: \<^verbatim>\<open>find\<close> takes the first story with the given id; nothing happens
  when there is none.
\<close>

fun updateFirst :: "string \<Rightarrow> story_updates \<Rightarrow> user_story list \<Rightarrow> user_story list" where
  "updateFirst i u [] = []"
| "updateFirst i u (s # ss) =
     (if sid s = i then assignStory u s # ss else s # updateFirst i u ss)"

definition updateStory :: "prd_spec \<Rightarrow> string \<Rightarrow> story_updates \<Rightarrow> prd_spec" where
  "updateStory spec i u = spec\<lparr>userStories := updateFirst i u (userStories spec)\<rparr>"

section \<open>Progress log\<close>

text \<open>
  \<^verbatim>\<open>ProgressEntry\<close> of \<^verbatim>\<open>src/types.ts\<close>. A log file is modelled by the entries written
  to it since it was initialised; the time stamp in the text of an entry is left out.
\<close>

record progress_entry =
  storyId :: string
  entrySummary :: string
  entryFilesChanged :: "string list"
  entryLearnings :: "string list"

text \<open>
  The files a loop job works on: backlog files (a path that holds no backlog cannot be
  loaded) and progress logs, both by path.
\<close>

record loop_files =
  prdFiles :: "string \<rightharpoonup> prd_spec"
  logFiles :: "string \<rightharpoonup> progress_entry list"

text \<open>\<^verbatim>\<open>PRD.load\<close> and \<^verbatim>\<open>PRD.save\<close>.\<close>

definition prdLoad :: "loop_files \<Rightarrow> string \<Rightarrow> prd_spec option" where
  "prdLoad fs path = prdFiles fs path"

definition prdSave :: "loop_files \<Rightarrow> prd_spec \<Rightarrow> string \<Rightarrow> loop_files" where
  "prdSave fs spec path = fs\<lparr>prdFiles := (prdFiles fs)(path \<mapsto> spec)\<rparr>"

text \<open>
  \<^verbatim>\<open>ProgressTracker.initialize\<close> overwrites the file with the header;
  \<^verbatim>\<open>ProgressTracker.append\<close> appends one entry, creating the file when it is missing.
\<close>

definition trackerInitialize :: "loop_files \<Rightarrow> string \<Rightarrow> loop_files" where
  "trackerInitialize fs path = fs\<lparr>logFiles := (logFiles fs)(path \<mapsto> [])\<rparr>"

definition trackerAppend :: "loop_files \<Rightarrow> string \<Rightarrow> progress_entry \<Rightarrow> loop_files" where
  "trackerAppend fs path e =
     fs\<lparr>logFiles := (logFiles fs)(path \<mapsto>
        (case logFiles fs path of None \<Rightarrow> [] | Some es \<Rightarrow> es) @ [e])\<rparr>"

section \<open>Loop executor\<close>

datatype loop_mode = Code | Research | Auto

datatype error_mode = FailFast | Retry | Graceful | Custom

text \<open>
  \<^verbatim>\<open>ExecuteLoopOptions\<close>. \<open>onIteration\<close> records whether the caller passed a callback,
  \<open>cancelToken\<close> is the address of the token in the token store of the job manager.
  The options that are only handed to the worker are left out.
\<close>

record loop_options =
  taskFile :: string
  maxIterations :: "int option"
  mode :: "loop_mode option"
  progressFile :: "string option"
  errorStrategy :: "error_mode option"
  onIteration :: bool
  cancelToken :: "nat option"

text \<open>The payload a worker returns for a story (the schema built in the loop).\<close>

record story_data =
  dataSuccess :: bool
  summary :: string
  filesChanged :: "string list"
  learnings :: "string list option"
  dataPasses :: bool

text \<open>\<^verbatim>\<open>ExecuteResult\<close>, with the payload type as a parameter.\<close>

record 'd execute_result =
  success :: bool
  outputDir :: string
  logs :: string
  duration :: int
  execError :: "string option"
  data :: "'d option"

record iteration_result =
  iteration :: nat
  taskId :: string
  iterSuccess :: bool
  iterDuration :: int
  commits :: "string list"

record task_state =
  stateMode :: loop_mode
  stateTasksTotal :: nat
  stateTasksCompleted :: nat
  tasks :: "user_story list"

text \<open>
  \<^verbatim>\<open>LoopResult\<close>; the elapsed time and the text read back from the progress log are left
  out.
\<close>

record loop_result =
  loopSuccess :: bool
  completed :: bool
  loopIterations :: "iteration_result list"
  finalState :: task_state

text \<open>
  What the body of \<^verbatim>\<open>LoopExecutor.execute\<close> may raise inside its \<^verbatim>\<open>try\<close>: the backlog
  cannot be loaded; the fail-fast branch throws \<^verbatim>\<open>TaskIncompleteError\<close> with the number
  of completed stories and the number of stories; or a call of something that is not a
  function throws a \<^verbatim>\<open>TypeError\<close>, with its message.
\<close>

datatype loop_error = LoadFailed | TaskIncompleteError nat nat | TypeError string

text \<open>The variables of the loop: the backlog in memory, the files, the history.\<close>

record loop_state =
  prd :: prd_spec
  loopFs :: loop_files
  history :: "iteration_result list"

text \<open>What one pass through the body of the \<^verbatim>\<open>while\<close> loop ends in.\<close>

datatype loop_step =
    Return loop_result loop_files
  | Throw loop_error loop_state
  | Break loop_state
  | Continue loop_state

definition modeOrCode :: "loop_options \<Rightarrow> loop_mode" where
  "modeOrCode opts = (case mode opts of None \<Rightarrow> Code | Some m \<Rightarrow> m)"

definition passedCount :: "prd_spec \<Rightarrow> nat" where
  "passedCount spec = length (filter passes (getUserStories spec))"

definition stateOf :: "loop_options \<Rightarrow> prd_spec \<Rightarrow> task_state" where
  "stateOf opts spec =
     \<lparr>stateMode = modeOrCode opts,
      stateTasksTotal = length (getUserStories spec),
      stateTasksCompleted = passedCount spec,
      tasks = getUserStories spec\<rparr>"

text \<open>
  \<^verbatim>\<open>options.progressFile\<close> is used only when it is truthy: the empty string counts as
  absent.
\<close>

definition progressPath :: "loop_options \<Rightarrow> string option" where
  "progressPath opts =
     (case progressFile opts of None \<Rightarrow> None
      | Some p \<Rightarrow> if p = [] then None else Some p)"

text \<open>
  The part of the body after the worker has returned and the iteration is recorded. On
  success with a payload that passes, the body calls \<^verbatim>\<open>prd.markStoryComplete(story.id)\<close>;
  the class \<^verbatim>\<open>PRD\<close> of \<^verbatim>\<open>src/ralph/prd.ts\<close> has no such method, so the call throws a
  \<^verbatim>\<open>TypeError\<close> before anything is appended or saved. On success with a payload that
  does not pass, an entry is appended to the log when a log is configured, and the
  backlog is saved. Without success, or without a payload, the body throws under
  fail-fast and goes on otherwise.
\<close>

definition afterWorker ::
  "loop_options \<Rightarrow> user_story \<Rightarrow> story_data execute_result \<Rightarrow> loop_state
     \<Rightarrow> loop_error + loop_state" where
  "afterWorker opts story res st =
     (case (if success res then data res else None) of
        Some d \<Rightarrow>
          (if dataPasses d
           then Inl (TypeError ''prd.markStoryComplete is not a function'')
           else
             (let fs1 = (case progressPath opts of
                           Some p \<Rightarrow> trackerAppend (loopFs st) p
                             \<lparr>storyId = sid story, entrySummary = summary d,
                              entryFilesChanged = filesChanged d,
                              entryLearnings =
                                (case learnings d of None \<Rightarrow> [] | Some l \<Rightarrow> l)\<rparr>
                         | None \<Rightarrow> loopFs st);
                  fs2 = prdSave fs1 (prd st) (taskFile opts)
              in Inr (st\<lparr>loopFs := fs2\<rparr>)))
      | None \<Rightarrow>
          (if errorStrategy opts = Some FailFast
           then Inl (TaskIncompleteError (passedCount (prd st))
                       (length (getUserStories (prd st))))
           else Inr st))"

text \<open>
  One pass through the loop body at iteration number \<open>it\<close> (already incremented). The
  worker is a function of the iteration number and the story; \<open>cancelled it\<close> is what
  \<^verbatim>\<open>cancelToken.isCancelled()\<close> answers at the end of that iteration (always false when
  there is no token). The iteration callback is called with each iteration as it is added
  to the history; what the callback of a loop job does to the job store is
  \<open>onIterationWrapped\<close> below.
\<close>

definition loopBody ::
  "loop_options \<Rightarrow> (nat \<Rightarrow> user_story \<Rightarrow> story_data execute_result) \<Rightarrow> (nat \<Rightarrow> bool)
     \<Rightarrow> nat \<Rightarrow> loop_state \<Rightarrow> loop_step" where
  "loopBody opts worker cancelled it st =
     (case getNextStory (prd st) of
        None \<Rightarrow>
          Return \<lparr>loopSuccess = True, completed = True, loopIterations = history st,
                  finalState = stateOf opts (prd st)\<rparr> (loopFs st)
      | Some story \<Rightarrow>
          (let res = worker it story;
               iterResult = \<lparr>iteration = it, taskId = sid story,
                  iterSuccess = success res, iterDuration = duration res,
                  commits = []\<rparr>;
               st1 = st\<lparr>history := history st @ [iterResult]\<rparr>
           in case afterWorker opts story res st1 of
                Inl e \<Rightarrow> Throw e st1
              | Inr st2 \<Rightarrow> if cancelled it then Break st2 else Continue st2))"

text \<open>\<^verbatim>\<open>options.maxIterations || 100\<close>: absent and zero both give 100.\<close>

definition maxIterationsOr100 :: "loop_options \<Rightarrow> int" where
  "maxIterationsOr100 opts =
     (case maxIterations opts of None \<Rightarrow> 100 | Some n \<Rightarrow> if n = 0 then 100 else n)"

text \<open>
  The \<^verbatim>\<open>while (iteration < maxIterations)\<close> loop, from the value \<open>it\<close> of the counter.
  Leaving the loop by \<^verbatim>\<open>break\<close> or by the bound gives the result after the loop.
\<close>

function whileLoop ::
  "loop_options \<Rightarrow> (nat \<Rightarrow> user_story \<Rightarrow> story_data execute_result) \<Rightarrow> (nat \<Rightarrow> bool)
     \<Rightarrow> nat \<Rightarrow> loop_state \<Rightarrow> loop_step" where
  "whileLoop opts worker cancelled it st =
     (if int it < maxIterationsOr100 opts
      then (case loopBody opts worker cancelled (Suc it) st of
              Continue st1 \<Rightarrow> whileLoop opts worker cancelled (Suc it) st1
            | other \<Rightarrow> other)
      else Break st)"
  by pat_completeness auto
termination
  by (relation "measure (\<lambda>(opts, worker, cancelled, it, st). nat (maxIterationsOr100 opts - int it))")
     auto

declare whileLoop.simps [simp del]

text \<open>
  \<^verbatim>\<open>LoopExecutor.execute\<close>. Whatever is thrown inside the \<^verbatim>\<open>try\<close> is caught by the
  \<^verbatim>\<open>catch\<close> of the same method, which builds its result from the history alone and sets
  both counts of the final state to zero. The result comes with the files as the run
  left them.
\<close>

definition errorResult :: "loop_options \<Rightarrow> iteration_result list \<Rightarrow> loop_result" where
  "errorResult opts its =
     \<lparr>loopSuccess = False, completed = False, loopIterations = its,
      finalState = \<lparr>stateMode = modeOrCode opts, stateTasksTotal = 0,
        stateTasksCompleted = 0, tasks = []\<rparr>\<rparr>"

definition execute ::
  "loop_options \<Rightarrow> (nat \<Rightarrow> user_story \<Rightarrow> story_data execute_result) \<Rightarrow> (nat \<Rightarrow> bool)
     \<Rightarrow> loop_files \<Rightarrow> loop_result \<times> loop_files" where
  "execute opts worker cancelled fs =
     (case prdLoad fs (taskFile opts) of
        None \<Rightarrow> (errorResult opts [], fs)
      | Some spec \<Rightarrow>
          (let fs1 = (case progressPath opts of
                        Some p \<Rightarrow> trackerInitialize fs p | None \<Rightarrow> fs)
           in case whileLoop opts worker cancelled 0
                     \<lparr>prd = spec, loopFs = fs1, history = []\<rparr> of
                Return r fs2 \<Rightarrow> (r, fs2)
              | Throw e st \<Rightarrow> (errorResult opts (history st), loopFs st)
              | Break st \<Rightarrow>
                  (\<lparr>loopSuccess = False, completed = False, loopIterations = history st,
                    finalState = stateOf opts (prd st)\<rparr>, loopFs st)
              | Continue st \<Rightarrow>
                  (\<lparr>loopSuccess = False, completed = False, loopIterations = history st,
                    finalState = stateOf opts (prd st)\<rparr>, loopFs st)))"

text \<open>The error a run of the loop was left with, if any.\<close>

definition thrownError :: "loop_step \<Rightarrow> loop_error option" where
  "thrownError r = (case r of Throw e st \<Rightarrow> Some e | _ \<Rightarrow> None)"

text \<open>A history whose iterations carry the numbers 1 to \<open>k\<close>, in this order.\<close>

definition numberedTo :: "nat \<Rightarrow> iteration_result list \<Rightarrow> bool" where
  "numberedTo k its = (map iteration its = [1..<Suc k])"

section \<open>Jobs\<close>

datatype job_status = Pending | Running | Completed | Failed | Cancelled

datatype job_type = SingleShot | Loop

text \<open>Times are milliseconds since the epoch, as \<^verbatim>\<open>Date.getTime()\<close> gives them.\<close>

record job_progress =
  currentIteration :: nat
  totalIterations :: "nat option"
  currentTaskId :: "string option"
  tasksCompleted :: nat
  tasksTotal :: nat
  lastUpdate :: int
  message :: "string option"

text \<open>\<^verbatim>\<open>Partial<JobProgress>\<close>.\<close>

record partial_progress =
  pCurrentIteration :: "nat option"
  pTotalIterations :: "nat option"
  pCurrentTaskId :: "string option"
  pTasksCompleted :: "nat option"
  pTasksTotal :: "nat option"
  pLastUpdate :: "int option"
  pMessage :: "string option"

definition noProgress :: partial_progress where
  "noProgress = \<lparr>pCurrentIteration = None, pTotalIterations = None, pCurrentTaskId = None,
     pTasksCompleted = None, pTasksTotal = None, pLastUpdate = None, pMessage = None\<rparr>"

text \<open>
  \<^verbatim>\<open>ExecuteOptions\<close> of a single-shot job: the prompt, the timeout and whether an output
  callback was passed; the schema and the other options handed to the worker are left
  out.
\<close>

record execute_options =
  prompt :: string
  timeout :: "int option"
  onOutput :: bool

datatype job_options = SingleShotOptions execute_options | LoopOptions loop_options

text \<open>The payload of a single-shot result is opaque to the job subsystem.\<close>

type_synonym payload = string

datatype job_result = SingleShotResult "payload execute_result" | LoopResult loop_result

text \<open>
  \<^verbatim>\<open>SingleShotJob | LoopJob\<close> over \<^verbatim>\<open>JobBase\<close>. A single-shot job has no
  \<^verbatim>\<open>iterations\<close> property.
\<close>

record job =
  jobId :: string
  jobType :: job_type
  status :: job_status
  createdAt :: int
  startedAt :: "int option"
  completedAt :: "int option"
  error :: "string option"
  progress :: "job_progress option"
  options :: job_options
  result :: "job_result option"
  iterations :: "iteration_result list option"

text \<open>
  \<^verbatim>\<open>SerializedJob\<close>, the content of a job file. The ISO strings of the time stamps are
  modelled by the times they denote.
\<close>

record serialized_job =
  sId :: string
  sType :: job_type
  sStatus :: job_status
  sCreatedAt :: int
  sStartedAt :: "int option"
  sCompletedAt :: "int option"
  sError :: "string option"
  sProgress :: "job_progress option"
  sOptions :: job_options
  sResult :: "job_result option"
  sIterations :: "iteration_result list option"

text \<open>A file of the store directory: one that \<^verbatim>\<open>JSON.parse\<close> rejects, or a job.\<close>

datatype job_file = Malformed | JobFile serialized_job

datatype error =
    JobNotFound string
  | AdmissionRejected nat
  | CannotDeleteRunning

text \<open>\<^verbatim>\<open>['completed', 'failed', 'cancelled'].includes(status)\<close>.\<close>

definition isTerminal :: "job_status \<Rightarrow> bool" where
  "isTerminal s = (s = Completed \<or> s = Failed \<or> s = Cancelled)"

section \<open>Job store\<close>

text \<open>
  The store: the map of jobs, the files of the store directory in directory order, and
  the two options that matter here. Writing and deleting files is taken to succeed.
\<close>

record job_store =
  jobs :: "string \<rightharpoonup> job"
  files :: "(string \<times> job_file) list"
  persistToFile :: bool
  maxJobAge :: int

text \<open>
  The path of the file of a job, relative to the store directory. Ids are taken to be
  plain file names: an id with a path separator in it would name a file outside the
  directory, which \<^verbatim>\<open>loadPersistedJobs\<close> does not read.
\<close>

definition getJobFilePath :: "string \<Rightarrow> string" where
  "getJobFilePath i = i @ ''.json''"

text \<open>\<^verbatim>\<open>serializeOptions\<close> drops the callbacks and the cancellation token.\<close>

definition serializeOptions :: "job_options \<Rightarrow> job_options" where
  "serializeOptions os =
     (case os of
        SingleShotOptions e \<Rightarrow> SingleShotOptions (e\<lparr>onOutput := False\<rparr>)
      | LoopOptions l \<Rightarrow> LoopOptions (l\<lparr>onIteration := False, cancelToken := None\<rparr>))"

definition serializeJob :: "job \<Rightarrow> serialized_job" where
  "serializeJob j =
     \<lparr>sId = jobId j, sType = jobType j, sStatus = status j, sCreatedAt = createdAt j,
      sStartedAt = startedAt j, sCompletedAt = completedAt j, sError = error j,
      sProgress = progress j, sOptions = serializeOptions (options j),
      sResult = result j,
      sIterations = (if jobType j = Loop then iterations j else None)\<rparr>"

definition deserializeJob :: "serialized_job \<Rightarrow> job" where
  "deserializeJob s =
     \<lparr>jobId = sId s, jobType = sType s, status = sStatus s, createdAt = sCreatedAt s,
      startedAt = sStartedAt s, completedAt = sCompletedAt s, error = sError s,
      progress = sProgress s, options = sOptions s, result = sResult s,
      iterations =
        (if sType s = Loop
         then Some (case sIterations s of None \<Rightarrow> [] | Some its \<Rightarrow> its)
         else None)\<rparr>"

definition persistJob :: "job_store \<Rightarrow> job \<Rightarrow> job_store" where
  "persistJob st j =
     st\<lparr>files := AList.update (getJobFilePath (jobId j)) (JobFile (serializeJob j)) (files st)\<rparr>"

definition save :: "job_store \<Rightarrow> job \<Rightarrow> job_store" where
  "save st j =
     (let st1 = st\<lparr>jobs := (jobs st)(jobId j \<mapsto> j)\<rparr>
      in if persistToFile st1 then persistJob st1 j else st1)"

definition get :: "job_store \<Rightarrow> string \<Rightarrow> job option" where
  "get st i = jobs st i"

text \<open>
  \<^verbatim>\<open>updateStatus\<close>, at clock reading \<open>now\<close>. An empty error string is falsy and is not
  stored.
\<close>

definition updateStatus ::
  "int \<Rightarrow> job_store \<Rightarrow> string \<Rightarrow> job_status \<Rightarrow> string option \<Rightarrow> error + job_store" where
  "updateStatus now st i s err =
     (case jobs st i of
        None \<Rightarrow> Inl (JobNotFound i)
      | Some j \<Rightarrow>
          (let j1 = j\<lparr>status := s\<rparr>;
               j2 = (if s = Running \<and> startedAt j1 = None
                     then j1\<lparr>startedAt := Some now\<rparr> else j1);
               j3 = (if isTerminal s then j2\<lparr>completedAt := Some now\<rparr> else j2);
               j4 = (case err of
                       None \<Rightarrow> j3
                     | Some e \<Rightarrow> if e = [] then j3 else j3\<lparr>error := Some e\<rparr>)
           in Inr (save st j4)))"

text \<open>\<^verbatim>\<open>a ?? b\<close> on optional values.\<close>

definition orElse :: "'a option \<Rightarrow> 'a option \<Rightarrow> 'a option" where
  "orElse a b = (case a of Some v \<Rightarrow> Some v | None \<Rightarrow> b)"

text \<open>The progress object \<^verbatim>\<open>updateProgress\<close> builds from the partial one and the old one.\<close>

definition mergeProgress :: "int \<Rightarrow> job_progress option \<Rightarrow> partial_progress \<Rightarrow> job_progress" where
  "mergeProgress now old p =
     \<lparr>currentIteration =
        (case orElse (pCurrentIteration p) (map_option currentIteration old) of
           Some v \<Rightarrow> v | None \<Rightarrow> 0),
      totalIterations = orElse (pTotalIterations p) (Option.bind old totalIterations),
      currentTaskId = orElse (pCurrentTaskId p) (Option.bind old currentTaskId),
      tasksCompleted =
        (case orElse (pTasksCompleted p) (map_option tasksCompleted old) of
           Some v \<Rightarrow> v | None \<Rightarrow> 0),
      tasksTotal =
        (case orElse (pTasksTotal p) (map_option tasksTotal old) of
           Some v \<Rightarrow> v | None \<Rightarrow> 0),
      lastUpdate = now,
      message = orElse (pMessage p) (Option.bind old message)\<rparr>"

definition updateProgress ::
  "int \<Rightarrow> job_store \<Rightarrow> string \<Rightarrow> partial_progress \<Rightarrow> error + job_store" where
  "updateProgress now st i p =
     (case jobs st i of
        None \<Rightarrow> Inl (JobNotFound i)
      | Some j \<Rightarrow> Inr (save st (j\<lparr>progress := Some (mergeProgress now (progress j) p)\<rparr>)))"

definition updateResult :: "job_store \<Rightarrow> string \<Rightarrow> job_result \<Rightarrow> error + job_store" where
  "updateResult st i r =
     (case jobs st i of
        None \<Rightarrow> Inl (JobNotFound i)
      | Some j \<Rightarrow> Inr (save st (j\<lparr>result := Some r\<rparr>)))"

definition delete :: "job_store \<Rightarrow> string \<Rightarrow> job_store" where
  "delete st i =
     (let st1 = st\<lparr>jobs := (jobs st)(i := None)\<rparr>
      in if persistToFile st1
         then st1\<lparr>files := AList.delete (getJobFilePath i) (files st1)\<rparr>
         else st1)"

text \<open>\<^verbatim>\<open>f.endsWith('.json')\<close>.\<close>

definition endsWith :: "string \<Rightarrow> string \<Rightarrow> bool" where
  "endsWith s suf = (length suf \<le> length s \<and> drop (length s - length suf) s = suf)"

text \<open>
  The body of the loop of \<^verbatim>\<open>loadPersistedJobs\<close> for one file, at clock reading \<open>now\<close>.
  A file that does not parse throws inside the inner \<^verbatim>\<open>try\<close> and is skipped.
\<close>

definition loadFile :: "int \<Rightarrow> job_store \<Rightarrow> string \<times> job_file \<Rightarrow> job_store" where
  "loadFile now st f =
     (case snd f of
        Malformed \<Rightarrow> st
      | JobFile s \<Rightarrow>
          (let j = deserializeJob s
           in if \<not> isTerminal (status j)
              then (let j1 = (if status j = Running
                              then j\<lparr>status := Failed,
                                     error := Some ''Job was interrupted by process restart'',
                                     completedAt := Some now\<rparr>
                              else j)
                    in st\<lparr>jobs := (jobs st)(jobId j1 \<mapsto> j1)\<rparr>)
              else (let c = (case completedAt j of Some t \<Rightarrow> t | None \<Rightarrow> createdAt j)
                    in if now - c < maxJobAge st
                       then st\<lparr>jobs := (jobs st)(jobId j \<mapsto> j)\<rparr>
                       else st\<lparr>files := AList.delete (fst f) (files st)\<rparr>)))"

text \<open>
  \<^verbatim>\<open>loadPersistedJobs\<close> reads the directory once and goes through its \<^verbatim>\<open>.json\<close> files
  in order; \<^verbatim>\<open>initialize\<close> calls it when persistence is on. The whole load is taken at one
  clock reading.
\<close>

definition loadPersistedJobs :: "int \<Rightarrow> job_store \<Rightarrow> job_store" where
  "loadPersistedJobs now st =
     foldl (loadFile now) st (filter (\<lambda>f. endsWith (fst f) ''.json'') (files st))"

definition initialize :: "int \<Rightarrow> job_store \<Rightarrow> job_store" where
  "initialize now st = (if persistToFile st then loadPersistedJobs now st else st)"

text \<open>The constructor of the store, with the options resolved.\<close>

definition newJobStore :: "bool \<Rightarrow> int \<Rightarrow> job_store" where
  "newJobStore persist age =
     \<lparr>jobs = Map.empty, files = [], persistToFile = persist, maxJobAge = age\<rparr>"

text \<open>
  Two invariants of a store: every job is kept under its own id, and the directory has no
  two files of the same name and holds every job in the file named after its id.
\<close>

definition keyed :: "job_store \<Rightarrow> bool" where
  "keyed st = (\<forall>i j. jobs st i = Some j \<longrightarrow> jobId j = i)"

definition namedById :: "(string \<times> job_file) list \<Rightarrow> bool" where
  "namedById fs =
     (distinct (map fst fs) \<and> (\<forall>n s. (n, JobFile s) \<in> set fs \<longrightarrow> n = getJobFilePath (sId s)))"

section \<open>Job manager\<close>

text \<open>
  The state of a \<^verbatim>\<open>JobManager\<close>. \<open>runningJobs\<close> holds the keys of the map from job id to
  the promise of the background execution, in insertion order; \<open>tokens\<close> is the heap of
  \<^verbatim>\<open>CancellationToken\<close> objects (the flag of each), \<open>nextToken\<close> the next free address, and
  \<open>cancellationTokens\<close> the map from job id to token. \<open>maxConcurrentJobs = None\<close> stands
  for the default \<^verbatim>\<open>Infinity\<close>. No event handler is installed.
\<close>

record job_manager =
  store :: job_store
  cancellationTokens :: "string \<rightharpoonup> nat"
  tokens :: "nat \<Rightarrow> bool"
  nextToken :: nat
  runningJobs :: "string list"
  maxConcurrentJobs :: "nat option"
  initialized :: bool

definition newJobManager :: "bool \<Rightarrow> int \<Rightarrow> nat option \<Rightarrow> job_manager" where
  "newJobManager persist age limit =
     \<lparr>store = newJobStore persist age, cancellationTokens = Map.empty,
      tokens = (\<lambda>t. False), nextToken = 0, runningJobs = [],
      maxConcurrentJobs = limit, initialized = False\<rparr>"

definition ensureInitialized :: "int \<Rightarrow> job_manager \<Rightarrow> job_manager" where
  "ensureInitialized now m =
     (if initialized m then m
      else m\<lparr>store := initialize now (store m), initialized := True\<rparr>)"

text \<open>\<^verbatim>\<open>Map.set\<close> and \<^verbatim>\<open>Map.delete\<close> on the keys of \<open>runningJobs\<close>.\<close>

definition keySet :: "string \<Rightarrow> string list \<Rightarrow> string list" where
  "keySet k ks = (if k \<in> set ks then ks else ks @ [k])"

definition keyDelete :: "string \<Rightarrow> string list \<Rightarrow> string list" where
  "keyDelete k ks = removeAll k ks"

definition getRunningCount :: "job_manager \<Rightarrow> nat" where
  "getRunningCount m = length (runningJobs m)"

text \<open>\<^verbatim>\<open>checkConcurrencyLimit\<close> throws when this holds.\<close>

definition limitReached :: "job_manager \<Rightarrow> bool" where
  "limitReached m =
     (case maxConcurrentJobs m of None \<Rightarrow> False | Some n \<Rightarrow> n \<le> length (runningJobs m))"

definition limitOf :: "job_manager \<Rightarrow> nat" where
  "limitOf m = (case maxConcurrentJobs m of None \<Rightarrow> 0 | Some n \<Rightarrow> n)"

text \<open>Decimal digits of a number, for the messages.\<close>

function showNat :: "nat \<Rightarrow> string" where
  "showNat n =
     (if n < 10 then [''0123456789'' ! n]
      else showNat (n div 10) @ [''0123456789'' ! (n mod 10)])"
  by pat_completeness auto
termination
  by (relation "measure (\<lambda>n. n)") auto

declare showNat.simps [simp del]

definition errorMessage :: "error \<Rightarrow> string" where
  "errorMessage e =
     (case e of
        JobNotFound i \<Rightarrow> ''Job not found: '' @ i
      | AdmissionRejected n \<Rightarrow>
          ''Maximum concurrent jobs limit reached ('' @ showNat n @ ''). ''
            @ ''Wait for some jobs to complete or increase the limit.''
      | CannotDeleteRunning \<Rightarrow> ''Cannot delete a running job. Cancel it first.'')"

definition messageOnly :: "string \<Rightarrow> partial_progress" where
  "messageOnly s = noProgress\<lparr>pMessage := Some s\<rparr>"

text \<open>The job records \<^verbatim>\<open>startSingleShot\<close> and \<^verbatim>\<open>startLoop\<close> create.\<close>

definition createSingleShotJob :: "int \<Rightarrow> string \<Rightarrow> execute_options \<Rightarrow> job" where
  "createSingleShotJob now i opts =
     \<lparr>jobId = i, jobType = SingleShot, status = Pending, createdAt = now,
      startedAt = None, completedAt = None, error = None,
      progress = Some \<lparr>currentIteration = 0, totalIterations = None, currentTaskId = None,
        tasksCompleted = 0, tasksTotal = 1, lastUpdate = now,
        message = Some ''Job created''\<rparr>,
      options = SingleShotOptions opts, result = None, iterations = None\<rparr>"

definition createLoopJob :: "int \<Rightarrow> string \<Rightarrow> loop_options \<Rightarrow> nat \<Rightarrow> job" where
  "createLoopJob now i opts tok =
     \<lparr>jobId = i, jobType = Loop, status = Pending, createdAt = now,
      startedAt = None, completedAt = None, error = None,
      progress = Some \<lparr>currentIteration = 0, totalIterations = None, currentTaskId = None,
        tasksCompleted = 0, tasksTotal = 0, lastUpdate = now,
        message = Some ''Job created''\<rparr>,
      options = LoopOptions (opts\<lparr>cancelToken := Some tok\<rparr>), result = None,
      iterations = Some []\<rparr>"

text \<open>
  The \<^verbatim>\<open>catch\<close> block of \<^verbatim>\<open>executeSingleShot\<close>: mark the job failed with the message of
  the error, then set the progress message. When the store throws again, the execution
  ends there with what was done so far.
\<close>

definition catchFailed :: "int \<Rightarrow> job_store \<Rightarrow> string \<Rightarrow> error \<Rightarrow> job_store" where
  "catchFailed now st i e =
     (case updateStatus now st i Failed (Some (errorMessage e)) of
        Inl e1 \<Rightarrow> st
      | Inr st1 \<Rightarrow>
          (case updateProgress now st1 i (messageOnly (''Error: '' @ errorMessage e)) of
             Inl e2 \<Rightarrow> st1
           | Inr st2 \<Rightarrow> st2))"

text \<open>
  A background execution runs in segments: from its start up to the call of the worker,
  and from the return of the worker to its end (for a loop job, the wrapped iteration
  callback in between). The operations of the caller are interleaved with an execution
  only while it waits for the worker. Each segment and each operation is taken at one
  clock reading \<open>now\<close>. When \<^verbatim>\<open>startSingleShot\<close> or \<^verbatim>\<open>startLoop\<close> returns, the
  execution has made the job running; it sets its first progress message before the next
  call of the caller when the store does not persist, and possibly after it when the
  store waits for a file to be written. What is stated below about the record a caller
  finds after a start therefore allows for both messages of a new job.

  First segment of \<^verbatim>\<open>executeSingleShot\<close> and of \<^verbatim>\<open>executeLoop\<close>: the job becomes
  running and gets its first progress message.
\<close>

definition beginExecution :: "int \<Rightarrow> job_store \<Rightarrow> string \<Rightarrow> string \<Rightarrow> error + job_store" where
  "beginExecution now st i msg =
     (case updateStatus now st i Running None of
        Inl e \<Rightarrow> Inl e
      | Inr st1 \<Rightarrow> updateProgress now st1 i (messageOnly msg))"

text \<open>What a call of the manager gives back: the value returned or the error thrown.\<close>

record poll_result =
  pollId :: string
  pollStatus :: job_status
  pollProgress :: "job_progress option"
  finished :: bool
  pollResult :: "job_result option"
  pollError :: "string option"
  pollDuration :: "int option"

datatype outcome =
    Raised error
  | StartedJob string
  | CancelResult bool
  | PollResult poll_result
  | Deleted
  | Background

text \<open>
  \<^verbatim>\<open>startSingleShot\<close>; \<open>requested\<close> is \<^verbatim>\<open>startOptions.jobId\<close> and \<open>uuid\<close> the value
  \<^verbatim>\<open>randomUUID()\<close> would give.
\<close>

definition startSingleShot ::
  "int \<Rightarrow> job_manager \<Rightarrow> execute_options \<Rightarrow> string option \<Rightarrow> string
     \<Rightarrow> outcome \<times> job_manager" where
  "startSingleShot now m opts requested uuid =
     (let m0 = ensureInitialized now m
      in if limitReached m0 then (Raised (AdmissionRejected (limitOf m0)), m0)
         else
           (let i = (case requested of Some r \<Rightarrow> r | None \<Rightarrow> uuid);
                st1 = save (store m0) (createSingleShotJob now i opts)
            in case beginExecution now st1 i ''Executing task...'' of
                 Inr st2 \<Rightarrow>
                   (StartedJob i, m0\<lparr>store := st2, runningJobs := keySet i (runningJobs m0)\<rparr>)
               | Inl e \<Rightarrow>
                   (StartedJob i, m0\<lparr>store := catchFailed now st1 i e,
                      runningJobs := keyDelete i (keySet i (runningJobs m0))\<rparr>)))"

text \<open>
  Second segment of \<^verbatim>\<open>executeSingleShot\<close>, when the worker has returned \<open>r\<close>; at its end
  the promise settles and the entry of the job leaves \<open>runningJobs\<close>.
\<close>

definition finishSingleShot ::
  "int \<Rightarrow> job_manager \<Rightarrow> string \<Rightarrow> payload execute_result \<Rightarrow> job_manager" where
  "finishSingleShot now m i r =
     (let st = store m;
          st4 =
            (case updateResult st i (SingleShotResult r) of
               Inl e \<Rightarrow> catchFailed now st i e
             | Inr st1 \<Rightarrow>
                 (case updateProgress now st1 i
                         (noProgress\<lparr>pTasksCompleted := Some 1,
                            pMessage := Some (if success r then ''Task completed''
                                              else ''Task failed'')\<rparr>) of
                    Inl e \<Rightarrow> catchFailed now st1 i e
                  | Inr st2 \<Rightarrow>
                      (case updateStatus now st2 i
                              (if success r then Completed else Failed) None of
                         Inl e \<Rightarrow> catchFailed now st2 i e
                       | Inr st3 \<Rightarrow> st3)))
      in m\<lparr>store := st4, runningJobs := keyDelete i (runningJobs m)\<rparr>)"

text \<open>\<^verbatim>\<open>startLoop\<close>: a fresh token is created and registered before the job is saved.\<close>

definition startLoop ::
  "int \<Rightarrow> job_manager \<Rightarrow> loop_options \<Rightarrow> string option \<Rightarrow> string
     \<Rightarrow> outcome \<times> job_manager" where
  "startLoop now m opts requested uuid =
     (let m0 = ensureInitialized now m
      in if limitReached m0 then (Raised (AdmissionRejected (limitOf m0)), m0)
         else
           (let i = (case requested of Some r \<Rightarrow> r | None \<Rightarrow> uuid);
                tok = nextToken m0;
                m1 = m0\<lparr>tokens := (tokens m0)(tok := False), nextToken := Suc tok,
                        cancellationTokens := (cancellationTokens m0)(i \<mapsto> tok)\<rparr>;
                st1 = save (store m1) (createLoopJob now i opts tok)
            in case beginExecution now st1 i ''Starting loop execution...'' of
                 Inr st2 \<Rightarrow>
                   (StartedJob i, m1\<lparr>store := st2, runningJobs := keySet i (runningJobs m1)\<rparr>)
               | Inl e \<Rightarrow>
                   (StartedJob i, m1\<lparr>store := catchFailed now st1 i e,
                      runningJobs := keyDelete i (keySet i (runningJobs m1)),
                      cancellationTokens := (cancellationTokens m1)(i := None)\<rparr>)))"

text \<open>
  The wrapped \<^verbatim>\<open>onIteration\<close> callback of \<^verbatim>\<open>executeLoop\<close>. Pushing onto the iterations of
  a record that has none throws, and so does \<^verbatim>\<open>updateProgress\<close> on a missing job; the
  callback then ends without doing the rest.
\<close>

definition onIterationWrapped ::
  "int \<Rightarrow> job_manager \<Rightarrow> string \<Rightarrow> iteration_result \<Rightarrow> job_manager" where
  "onIterationWrapped now m i it =
     (case get (store m) i of
        None \<Rightarrow> m
      | Some cj \<Rightarrow>
          (case iterations cj of
             None \<Rightarrow> m
           | Some its \<Rightarrow>
               (let st1 = save (store m) (cj\<lparr>iterations := Some (its @ [it])\<rparr>);
                    prevCompleted = (case progress cj of Some p \<Rightarrow> tasksCompleted p | None \<Rightarrow> 0)
                in case updateProgress now st1 i
                          (noProgress\<lparr>pCurrentIteration := Some (iteration it),
                             pCurrentTaskId := Some (taskId it),
                             pTasksCompleted :=
                               Some (if iterSuccess it then prevCompleted + 1 else prevCompleted),
                             pMessage := Some (''Completed iteration ''
                               @ showNat (iteration it) @ '': '' @ taskId it)\<rparr>) of
                     Inl e \<Rightarrow> m\<lparr>store := st1\<rparr>
                   | Inr st2 \<Rightarrow> m\<lparr>store := st2\<rparr>)))"

text \<open>
  Last segment of \<^verbatim>\<open>executeLoop\<close>, when the loop executor has returned \<open>r\<close>. The status is
  set only when the job is not cancelled; the \<^verbatim>\<open>catch\<close> block returns at once for a
  cancelled job. At the end the entry of the job leaves \<open>runningJobs\<close> and
  \<open>cancellationTokens\<close>.
\<close>

definition catchLoop :: "int \<Rightarrow> job_store \<Rightarrow> string \<Rightarrow> error \<Rightarrow> job_store" where
  "catchLoop now st i e =
     (if map_option status (get st i) = Some Cancelled then st
      else catchFailed now st i e)"

definition finishLoop :: "int \<Rightarrow> job_manager \<Rightarrow> string \<Rightarrow> loop_result \<Rightarrow> job_manager" where
  "finishLoop now m i r =
     (let st = store m;
          st4 =
            (case updateResult st i (LoopResult r) of
               Inl e \<Rightarrow> catchLoop now st i e
             | Inr st1 \<Rightarrow>
                 (case updateProgress now st1 i
                         (noProgress\<lparr>pTasksCompleted := Some (stateTasksCompleted (finalState r)),
                            pTasksTotal := Some (stateTasksTotal (finalState r)),
                            pMessage := Some (if completed r then ''All tasks completed''
                                              else ''Loop finished'')\<rparr>) of
                    Inl e \<Rightarrow> catchLoop now st1 i e
                  | Inr st2 \<Rightarrow>
                      (if map_option status (get st2 i) \<noteq> Some Cancelled
                       then (case updateStatus now st2 i
                                    (if loopSuccess r then Completed else Failed) None of
                               Inl e \<Rightarrow> catchLoop now st2 i e
                             | Inr st3 \<Rightarrow> st3)
                       else st2)))
      in m\<lparr>store := st4, runningJobs := keyDelete i (runningJobs m),
           cancellationTokens := (cancellationTokens m)(i := None)\<rparr>)"

text \<open>\<^verbatim>\<open>poll\<close>: the snapshot of a job, and the call.\<close>

definition pollJob :: "job \<Rightarrow> poll_result" where
  "pollJob j =
     (let fin = isTerminal (status j);
          dur = (case (completedAt j, startedAt j) of
                   (Some c, Some s) \<Rightarrow> if fin then Some (c - s) else None
                 | _ \<Rightarrow> None)
      in \<lparr>pollId = jobId j, pollStatus = status j, pollProgress = progress j,
          finished = fin, pollResult = (if fin then result j else None),
          pollError = error j, pollDuration = dur\<rparr>)"

definition poll :: "int \<Rightarrow> job_manager \<Rightarrow> string \<Rightarrow> outcome \<times> job_manager" where
  "poll now m i =
     (let m0 = ensureInitialized now m
      in case get (store m0) i of
           None \<Rightarrow> (Raised (JobNotFound i), m0)
         | Some j \<Rightarrow> (PollResult (pollJob j), m0))"

text \<open>\<^verbatim>\<open>cancel\<close>.\<close>

definition cancel :: "int \<Rightarrow> job_manager \<Rightarrow> string \<Rightarrow> outcome \<times> job_manager" where
  "cancel now m i =
     (let m0 = ensureInitialized now m
      in case get (store m0) i of
           None \<Rightarrow> (Raised (JobNotFound i), m0)
         | Some j \<Rightarrow>
             if isTerminal (status j) then (CancelResult False, m0)
             else
               (let m1 = (case cancellationTokens m0 i of
                            Some t \<Rightarrow> m0\<lparr>tokens := (tokens m0)(t := True)\<rparr>
                          | None \<Rightarrow> m0)
                in case updateStatus now (store m1) i Cancelled None of
                     Inl e \<Rightarrow> (Raised e, m1)
                   | Inr st1 \<Rightarrow> (CancelResult True, m1\<lparr>store := st1\<rparr>)))"

text \<open>\<^verbatim>\<open>deleteJob\<close> refuses a job that is not in a terminal status.\<close>

definition deleteJob :: "int \<Rightarrow> job_manager \<Rightarrow> string \<Rightarrow> outcome \<times> job_manager" where
  "deleteJob now m i =
     (let m0 = ensureInitialized now m
      in case get (store m0) i of
           Some j \<Rightarrow>
             if \<not> isTerminal (status j) then (Raised CannotDeleteRunning, m0)
             else (Deleted, m0\<lparr>store := delete (store m0) i\<rparr>)
         | None \<Rightarrow> (Deleted, m0\<lparr>store := delete (store m0) i\<rparr>))"

text \<open>
  What happens to a manager, one after the other: calls of the caller and segments of
  background executions, each with its clock reading.
\<close>

datatype operation =
    StartSingleShotOp execute_options "string option" string
  | StartLoopOp loop_options "string option" string
  | PollOp string
  | CancelOp string
  | DeleteJobOp string
  | WorkerReturns string "payload execute_result"
  | LoopIterates string iteration_result
  | LoopReturns string loop_result

fun step :: "int \<Rightarrow> job_manager \<Rightarrow> operation \<Rightarrow> outcome \<times> job_manager" where
  "step now m (StartSingleShotOp opts requested uuid) = startSingleShot now m opts requested uuid"
| "step now m (StartLoopOp opts requested uuid) = startLoop now m opts requested uuid"
| "step now m (PollOp i) = poll now m i"
| "step now m (CancelOp i) = cancel now m i"
| "step now m (DeleteJobOp i) = deleteJob now m i"
| "step now m (WorkerReturns i r) = (Background, finishSingleShot now m i r)"
| "step now m (LoopIterates i it) = (Background, onIterationWrapped now m i it)"
| "step now m (LoopReturns i r) = (Background, finishLoop now m i r)"

fun runOps :: "job_manager \<Rightarrow> (int \<times> operation) list \<Rightarrow> outcome list \<times> job_manager" where
  "runOps m [] = ([], m)"
| "runOps m ((now, op) # ops) =
     (let (out, m1) = step now m op;
          (outs, m2) = runOps m1 ops
      in (out # outs, m2))"

text \<open>The id a start operation runs under.\<close>

fun startedId :: "operation \<Rightarrow> string option" where
  "startedId (StartSingleShotOp opts requested uuid) =
     Some (case requested of Some r \<Rightarrow> r | None \<Rightarrow> uuid)"
| "startedId (StartLoopOp opts requested uuid) =
     Some (case requested of Some r \<Rightarrow> r | None \<Rightarrow> uuid)"
| "startedId other = None"

text \<open>The ids a list of operations starts jobs under, and whether all of them are starts.\<close>

definition startedIds :: "(int \<times> operation) list \<Rightarrow> string list" where
  "startedIds ops = List.map_filter (\<lambda>x. startedId (snd x)) ops"

definition allStarts :: "(int \<times> operation) list \<Rightarrow> bool" where
  "allStarts ops = list_all (\<lambda>x. startedId (snd x) \<noteq> None) ops"

section \<open>Concrete inputs\<close>

definition storyA :: user_story where
  "storyA = \<lparr>sid = ''A'', title = ''first'', description = '''', acceptanceCriteria = [],
     priority = 2, estimatedComplexity = 1, passes = False\<rparr>"

definition storyB :: user_story where
  "storyB = \<lparr>sid = ''B'', title = ''second'', description = '''', acceptanceCriteria = [],
     priority = 1, estimatedComplexity = 1, passes = False\<rparr>"

definition prdAB :: prd_spec where
  "prdAB = \<lparr>project = ''p'', branchName = ''b'', prdDescription = '''',
     userStories = [storyA, storyB]\<rparr>"

definition story1 :: user_story where
  "story1 = \<lparr>sid = ''US-001'', title = ''one'', description = '''', acceptanceCriteria = [],
     priority = 1, estimatedComplexity = 1, passes = False\<rparr>"

definition story2 :: user_story where
  "story2 = \<lparr>sid = ''US-002'', title = ''two'', description = '''', acceptanceCriteria = [],
     priority = 2, estimatedComplexity = 1, passes = False\<rparr>"

definition prd12 :: prd_spec where
  "prd12 = \<lparr>project = ''p'', branchName = ''b'', prdDescription = '''',
     userStories = [story1, story2]\<rparr>"

definition files12 :: loop_files where
  "files12 = \<lparr>prdFiles = [''prd.json'' \<mapsto> prd12], logFiles = Map.empty\<rparr>"

definition optsFailFast :: loop_options where
  "optsFailFast = \<lparr>taskFile = ''prd.json'', maxIterations = None, mode = None,
     progressFile = Some ''progress.txt'', errorStrategy = Some FailFast,
     onIteration = False, cancelToken = None\<rparr>"

definition dataWith :: "bool \<Rightarrow> story_data" where
  "dataWith p = \<lparr>dataSuccess = True, summary = ''done'', filesChanged = [],
     learnings = None, dataPasses = p\<rparr>"

definition workerOk :: "bool \<Rightarrow> story_data execute_result" where
  "workerOk p = \<lparr>success = True, outputDir = ''out'', logs = '''', duration = 5,
     execError = None, data = Some (dataWith p)\<rparr>"

definition workerFailed :: "story_data execute_result" where
  "workerFailed = \<lparr>success = False, outputDir = '''', logs = '''', duration = 5,
     execError = Some ''exit 1'', data = None\<rparr>"

text \<open>A worker whose every call fails, and one whose every payload passes.\<close>

definition workerFails :: "nat \<Rightarrow> user_story \<Rightarrow> story_data execute_result" where
  "workerFails it story = workerFailed"

definition workerPassing :: "nat \<Rightarrow> user_story \<Rightarrow> story_data execute_result" where
  "workerPassing it story = workerOk True"

text \<open>The same options with at most two iterations.\<close>

definition optsTwoRounds :: loop_options where
  "optsTwoRounds = optsFailFast\<lparr>maxIterations := Some 2\<rparr>"


definition neverCancelled :: "nat \<Rightarrow> bool" where
  "neverCancelled it = False"

text \<open>A worker that always succeeds with a payload that does not pass.\<close>

definition workerNoPass :: "nat \<Rightarrow> user_story \<Rightarrow> story_data execute_result" where
  "workerNoPass it story = workerOk False"

definition entry1 :: progress_entry where
  "entry1 = \<lparr>storyId = ''US-001'', entrySummary = ''done'', entryFilesChanged = [],
     entryLearnings = []\<rparr>"

definition state12 :: loop_state where
  "state12 = \<lparr>prd = prd12, loopFs = trackerInitialize files12 ''progress.txt'', history = []\<rparr>"

definition optsSingle :: execute_options where
  "optsSingle = \<lparr>prompt = ''Summarise the report'', timeout = None, onOutput = False\<rparr>"

definition progressOne :: job_progress where
  "progressOne = \<lparr>currentIteration = 0, totalIterations = None, currentTaskId = None,
     tasksCompleted = 0, tasksTotal = 1, lastUpdate = 5, message = Some ''Job created''\<rparr>"

definition jobOne :: job where
  "jobOne = \<lparr>jobId = ''job-1'', jobType = SingleShot, status = Running, createdAt = 5,
     startedAt = Some 6, completedAt = None, error = None, progress = Some progressOne,
     options = SingleShotOptions optsSingle, result = None, iterations = None\<rparr>"

definition storeOne :: job_store where
  "storeOne = \<lparr>jobs = [''job-1'' \<mapsto> jobOne], files = [], persistToFile = False,
     maxJobAge = 86400000\<rparr>"

definition completedOnly :: partial_progress where
  "completedOnly = noProgress\<lparr>pTasksCompleted := Some 1\<rparr>"

definition workerDone :: "payload execute_result" where
  "workerDone = \<lparr>success = True, outputDir = ''out'', logs = ''No logs'', duration = 5,
     execError = None, data = Some ''{}''\<rparr>"

text \<open>
  A manager without a limit in which the single-shot job \<^verbatim>\<open>job-1\<close> was started at time 1
  and its worker returned at time 7.
\<close>

definition managerDone :: job_manager where
  "managerDone = snd (runOps (newJobManager False 86400000 None)
     [(1, StartSingleShotOp optsSingle (Some ''job-1'') ''uuid-1''),
      (7, WorkerReturns ''job-1'' workerDone)])"

definition jobFinished :: job where
  "jobFinished = \<lparr>jobId = ''job-1'', jobType = SingleShot, status = Completed,
     createdAt = 1, startedAt = Some 1, completedAt = Some 7, error = None,
     progress = Some \<lparr>currentIteration = 0, totalIterations = None, currentTaskId = None,
       tasksCompleted = 1, tasksTotal = 1, lastUpdate = 7,
       message = Some ''Task completed''\<rparr>,
     options = SingleShotOptions optsSingle,
     result = Some (SingleShotResult workerDone), iterations = None\<rparr>"

text \<open>The same job cancelled at time 3, while its worker is running.\<close>

definition managerCancelled :: job_manager where
  "managerCancelled = snd (runOps (newJobManager False 86400000 None)
     [(1, StartSingleShotOp optsSingle (Some ''job-1'') ''uuid-1''),
      (3, CancelOp ''job-1'')])"

text \<open>
  The run of the loop over two rounds with the worker whose payloads do not pass: both
  iterations work on the first story and succeed.
\<close>

definition loopRun :: loop_result where
  "loopRun = fst (execute optsTwoRounds workerNoPass neverCancelled files12)"

text \<open>
  A loop job started at time 1 over that backlog, after the callback of the first
  iteration at time 2.
\<close>

definition managerLoop :: job_manager where
  "managerLoop = snd (runOps (newJobManager False 86400000 None)
     [(1, StartLoopOp optsTwoRounds (Some ''loop-1'') ''uuid-2''),
      (2, LoopIterates ''loop-1'' (loopIterations loopRun ! 0))])"

text \<open>
  The same loop job cancelled at time 3, during the second iteration: the token is seen
  cancelled at the end of that iteration and the loop returns at time 5.
\<close>

definition cancelledFromSecond :: "nat \<Rightarrow> bool" where
  "cancelledFromSecond it = (2 \<le> it)"

definition loopRunCancelled :: loop_result where
  "loopRunCancelled = fst (execute optsTwoRounds workerNoPass cancelledFromSecond files12)"

definition managerLoopCancelled :: job_manager where
  "managerLoopCancelled = snd (runOps managerLoop
     [(3, CancelOp ''loop-1''),
      (4, LoopIterates ''loop-1'' (loopIterations loopRunCancelled ! 1)),
      (5, LoopReturns ''loop-1'' loopRunCancelled)])"

text \<open>A manager that admits one job at a time, and one that admits two.\<close>

definition managerOneSlot :: job_manager where
  "managerOneSlot = newJobManager False 86400000 (Some 1)"

definition managerTwoSlots :: job_manager where
  "managerTwoSlots = newJobManager False 86400000 (Some 2)"

definition startJob1 :: operation where
  "startJob1 = StartSingleShotOp optsSingle (Some ''job-1'') ''uuid-1''"

definition startJob2 :: operation where
  "startJob2 = StartSingleShotOp optsSingle (Some ''job-2'') ''uuid-2''"

definition startLoop1 :: operation where
  "startLoop1 = StartLoopOp optsFailFast (Some ''loop-1'') ''uuid-3''"

definition jobCancelled :: job where
  "jobCancelled = \<lparr>jobId = ''job-1'', jobType = SingleShot, status = Cancelled,
     createdAt = 1, startedAt = Some 1, completedAt = Some 3, error = None,
     progress = Some \<lparr>currentIteration = 0, totalIterations = None, currentTaskId = None,
       tasksCompleted = 0, tasksTotal = 1, lastUpdate = 1,
       message = Some ''Executing task...''\<rparr>,
     options = SingleShotOptions optsSingle, result = None, iterations = None\<rparr>"










section \<open>Selection of the next sub-task\<close>

lemma hd_insort_key:
  "hd (insort_key f x ys) = (if ys = [] \<or> f x \<le> f (hd ys) then x else hd ys)"
  by (cases ys) auto

lemma sort_key_Nil_iff: "sort_key f xs = [] \<longleftrightarrow> xs = []"
  by (metis length_sort list.size(3) length_0_conv)

lemma hd_sort_key_Cons:
  "hd (sort_key f (x # xs)) =
     (if xs = [] \<or> f x \<le> f (hd (sort_key f xs)) then x else hd (sort_key f xs))"
  by (simp add: hd_insort_key sort_key_Nil_iff)

text \<open>The head of the stably sorted filtered list, located in the unfiltered list.\<close>

lemma hd_sort_filter_split:
  "filter P xs \<noteq> [] \<Longrightarrow>
   \<exists>pre post. xs = pre @ hd (sort_key f (filter P xs)) # post
      \<and> P (hd (sort_key f (filter P xs)))
      \<and> (\<forall>t \<in> set pre. P t \<longrightarrow> f (hd (sort_key f (filter P xs))) < f t)
      \<and> (\<forall>t \<in> set post. P t \<longrightarrow> f (hd (sort_key f (filter P xs))) \<le> f t)"
proof (induction xs)
  case Nil
  then show ?case by simp
next
  case (Cons x xs)
  show ?case
  proof (cases "filter P xs = []")
    case True
    with Cons.prems have px: "P x" by (auto split: if_splits)
    have none: "\<forall>t \<in> set xs. \<not> P t" using True by (simp add: filter_empty_conv)
    have "hd (sort_key f (filter P (x # xs))) = x" using px True by simp
    then show ?thesis using px none by (intro exI [of _ "[]"] exI [of _ xs]) simp
  next
    case False
    define h where "h = hd (sort_key f (filter P xs))"
    from Cons.IH [OF False] obtain pre post where d: "xs = pre @ h # post" "P h"
      "\<forall>t \<in> set pre. P t \<longrightarrow> f h < f t" "\<forall>t \<in> set post. P t \<longrightarrow> f h \<le> f t"
      unfolding h_def by blast
    show ?thesis
    proof (cases "P x")
      case nx: False
      then have "hd (sort_key f (filter P (x # xs))) = h" by (simp add: h_def)
      then show ?thesis using d nx
        by (intro exI [of _ "x # pre"] exI [of _ post]) simp
    next
      case px: True
      have hx: "hd (sort_key f (filter P (x # xs))) = (if f x \<le> f h then x else h)"
        using px False unfolding h_def by (simp add: hd_insort_key sort_key_Nil_iff)
      show ?thesis
      proof (cases "f x \<le> f h")
        case True
        have "\<forall>t \<in> set xs. P t \<longrightarrow> f x \<le> f t"
        proof (intro ballI impI)
          fix t assume "t \<in> set xs" "P t"
          then have "f h \<le> f t" using d by (auto simp: less_imp_le)
          with True show "f x \<le> f t" by simp
        qed
        then show ?thesis using hx True px
          by (intro exI [of _ "[]"] exI [of _ xs]) simp
      next
        case F: False
        then have "hd (sort_key f (filter P (x # xs))) = h" using hx by simp
        then show ?thesis using d F
          by (intro exI [of _ "x # pre"] exI [of _ post]) auto
      qed
    qed
  qed
qed

lemma getNextStory_None_iff:
  "getNextStory spec = None \<longleftrightarrow> (\<forall>s \<in> set (userStories spec). passes s)"
  by (auto simp: getNextStory_def Let_def filter_empty_conv)

lemma getNextStory_index:
  assumes "getNextStory spec = Some s"
  shows "\<exists>i < length (userStories spec). userStories spec ! i = s \<and> \<not> passes s \<and>
           (\<forall>j < length (userStories spec). \<not> passes (userStories spec ! j) \<longrightarrow>
              priority s < priority (userStories spec ! j)
              \<or> (priority s = priority (userStories spec ! j) \<and> i \<le> j))"
proof -
  let ?P = "\<lambda>s. \<not> passes s"
  let ?xs = "userStories spec"
  from assms have ne: "filter ?P ?xs \<noteq> []" and s: "s = hd (sort_key priority (filter ?P ?xs))"
    by (auto simp: getNextStory_def Let_def split: if_splits)
  from hd_sort_filter_split [OF ne, of priority] obtain pre post where
    d: "?xs = pre @ s # post" "\<not> passes s"
      "\<forall>t \<in> set pre. \<not> passes t \<longrightarrow> priority s < priority t"
      "\<forall>t \<in> set post. \<not> passes t \<longrightarrow> priority s \<le> priority t"
    unfolding s [symmetric] by blast
  have "\<forall>j < length ?xs. \<not> passes (?xs ! j) \<longrightarrow>
          priority s < priority (?xs ! j) \<or> (priority s = priority (?xs ! j) \<and> length pre \<le> j)"
  proof (intro allI impI)
    fix j assume j: "j < length ?xs" and np: "\<not> passes (?xs ! j)"
    consider "j < length pre" | "j = length pre" | "length pre < j" by linarith
    then show "priority s < priority (?xs ! j) \<or> (priority s = priority (?xs ! j) \<and> length pre \<le> j)"
    proof cases
      case 1
      then have "?xs ! j = pre ! j" "pre ! j \<in> set pre" using d(1) by (simp_all add: nth_append)
      then show ?thesis using d(3) np by auto
    next
      case 2
      then show ?thesis using d(1) by simp
    next
      case 3
      then have "?xs ! j = post ! (j - Suc (length pre))" using d(1) by (simp add: nth_append)
      moreover have "j - Suc (length pre) < length post" using 3 j d(1) by simp
      ultimately have "?xs ! j \<in> set post" by simp
      then have "priority s \<le> priority (?xs ! j)" using d(4) np by blast
      then show ?thesis using 3 by auto
    qed
  qed
  moreover have "length pre < length ?xs" "?xs ! length pre = s" using d(1) by simp_all
  ultimately show ?thesis using d(2) by blast
qed

lemma getNextStory_calls_pure:
  "getNextStory_calls n spec = (replicate n (getNextStory spec), spec)"
  by (induction n) (simp_all add: getNextStory_call_def)

text \<open>
  Claim C7. The story \<^verbatim>\<open>getNextStory\<close> returns is the incomplete story that comes first
  in the order by priority, then by position in the backlog; nothing is returned exactly
  when every story passes. Calling it any number of times returns the same story and
  leaves the backlog as it was. For a backlog of two incomplete stories with priorities
  2 and 1 and different ids, every call returns the second story, and once that story is
  updated to pass, the first story is returned.
\<close>

theorem getNextStory_total_order:
  "(getNextStory spec = None \<longleftrightarrow> (\<forall>t \<in> set (userStories spec). passes t))
   \<and> (getNextStory spec = Some s \<longrightarrow>
        (\<exists>i < length (userStories spec). userStories spec ! i = s \<and> \<not> passes s \<and>
           (\<forall>j < length (userStories spec). \<not> passes (userStories spec ! j) \<longrightarrow>
              priority s < priority (userStories spec ! j)
              \<or> (priority s = priority (userStories spec ! j) \<and> i \<le> j))))
   \<and> getNextStory_calls n spec = (replicate n (getNextStory spec), spec)
   \<and> (userStories spec = [a, b] \<and> priority a = 2 \<and> priority b = 1
        \<and> \<not> passes a \<and> \<not> passes b \<and> sid a \<noteq> sid b \<longrightarrow>
        getNextStory_calls n spec = (replicate n (Some b), spec)
        \<and> getNextStory (updateStory spec (sid b) (noUpdates\<lparr>newPasses := Some True\<rparr>)) = Some a)"
proof (intro conjI impI)
  show "getNextStory spec = None \<longleftrightarrow> (\<forall>t \<in> set (userStories spec). passes t)"
    by (rule getNextStory_None_iff)
next
  assume "getNextStory spec = Some s"
  then show "\<exists>i < length (userStories spec). userStories spec ! i = s \<and> \<not> passes s \<and>
           (\<forall>j < length (userStories spec). \<not> passes (userStories spec ! j) \<longrightarrow>
              priority s < priority (userStories spec ! j)
              \<or> (priority s = priority (userStories spec ! j) \<and> i \<le> j))"
    by (rule getNextStory_index)
next
  show "getNextStory_calls n spec = (replicate n (getNextStory spec), spec)"
    by (rule getNextStory_calls_pure)
next
  assume h: "userStories spec = [a, b] \<and> priority a = 2 \<and> priority b = 1
        \<and> \<not> passes a \<and> \<not> passes b \<and> sid a \<noteq> sid b"
  then have "getNextStory spec = Some b" by (simp add: getNextStory_def)
  then show "getNextStory_calls n spec = (replicate n (Some b), spec)"
    by (simp add: getNextStory_calls_pure)
next
  assume h: "userStories spec = [a, b] \<and> priority a = 2 \<and> priority b = 1
        \<and> \<not> passes a \<and> \<not> passes b \<and> sid a \<noteq> sid b"
  then show "getNextStory (updateStory spec (sid b) (noUpdates\<lparr>newPasses := Some True\<rparr>)) = Some a"
    by (simp add: getNextStory_def updateStory_def assignStory_def noUpdates_def)
qed

text \<open>Claim C7 at the backlog of stories A (priority 2) and B (priority 1).\<close>

theorem getNextStory_total_order_witness:
  "getNextStory prdAB = Some storyB
   \<and> (\<exists>i < length (userStories prdAB). userStories prdAB ! i = storyB \<and> \<not> passes storyB \<and>
           (\<forall>j < length (userStories prdAB). \<not> passes (userStories prdAB ! j) \<longrightarrow>
              priority storyB < priority (userStories prdAB ! j)
              \<or> (priority storyB = priority (userStories prdAB ! j) \<and> i \<le> j)))
   \<and> getNextStory_calls 3 prdAB = ([Some storyB, Some storyB, Some storyB], prdAB)
   \<and> getNextStory (updateStory prdAB ''B'' (noUpdates\<lparr>newPasses := Some True\<rparr>)) = Some storyA"
proof -
  have g: "getNextStory prdAB = Some storyB"
    by (simp add: getNextStory_def prdAB_def storyA_def storyB_def)
  have h: "userStories prdAB = [storyA, storyB] \<and> priority storyA = 2 \<and> priority storyB = 1
        \<and> \<not> passes storyA \<and> \<not> passes storyB \<and> sid storyA \<noteq> sid storyB"
    by (simp add: prdAB_def storyA_def storyB_def)
  have r: "replicate 3 (Some storyB) = [Some storyB, Some storyB, Some storyB]"
    by (simp add: numeral_3_eq_3)
  have sb: "sid storyB = ''B''" by (simp add: storyB_def)
  from getNextStory_total_order [of prdAB storyB 3 storyA storyB] g h r sb
  show ?thesis by simp
qed

section \<open>One iteration of the loop\<close>

lemma afterWorker_not_passing:
  assumes "success res" and "data res = Some d" and "\<not> dataPasses d"
  shows "afterWorker opts story res st =
     Inr (st\<lparr>loopFs := prdSave
              (case progressPath opts of
                 Some p \<Rightarrow> trackerAppend (loopFs st) p
                    \<lparr>storyId = sid story, entrySummary = summary d,
                     entryFilesChanged = filesChanged d,
                     entryLearnings = (case learnings d of None \<Rightarrow> [] | Some l \<Rightarrow> l)\<rparr>
               | None \<Rightarrow> loopFs st)
              (prd st) (taskFile opts)\<rparr>)"
  using assms by (simp add: afterWorker_def Let_def)

text \<open>
  Claim C2, as amended. In an iteration whose worker call succeeds with a payload that
  does not pass, the backlog in memory stays as it was (the selected story is not marked),
  an entry for the story is appended to the progress log when a progress file is
  configured (and no entry is written otherwise), the backlog is saved to the task file,
  and the iteration is added to the history.
\<close>

theorem iteration_bookkeeping:
  assumes "getNextStory (prd st) = Some story"
    and "success (worker it story)" and "data (worker it story) = Some d"
    and "\<not> dataPasses d"
  shows "\<exists>st2. loopBody opts worker cancelled it st
            = (if cancelled it then Break st2 else Continue st2)
     \<and> prd st2 = prd st
     \<and> logFiles (loopFs st2) =
         (case progressPath opts of
            None \<Rightarrow> logFiles (loopFs st)
          | Some p \<Rightarrow> (logFiles (loopFs st))(p \<mapsto>
              (case logFiles (loopFs st) p of None \<Rightarrow> [] | Some es \<Rightarrow> es) @
              [\<lparr>storyId = sid story, entrySummary = summary d,
                entryFilesChanged = filesChanged d,
                entryLearnings = (case learnings d of None \<Rightarrow> [] | Some l \<Rightarrow> l)\<rparr>]))
     \<and> prdFiles (loopFs st2) = (prdFiles (loopFs st))(taskFile opts \<mapsto> prd st)
     \<and> history st2 = history st @
         [\<lparr>iteration = it, taskId = sid story, iterSuccess = True,
           iterDuration = duration (worker it story), commits = []\<rparr>]"
  using assms
  by (cases "progressPath opts")
     (simp_all add: loopBody_def Let_def afterWorker_not_passing prdSave_def trackerAppend_def)

text \<open>The amended claim C2 at the first iteration of a two-story backlog.\<close>

theorem iteration_bookkeeping_witness:
  "getNextStory (prd state12) = Some story1
   \<and> success (workerNoPass 1 story1)
   \<and> data (workerNoPass 1 story1) = Some (dataWith False)
   \<and> dataPasses (dataWith False) = False
   \<and> (\<exists>st2. loopBody optsFailFast workerNoPass neverCancelled 1 state12 = Continue st2
        \<and> prd st2 = prd12
        \<and> logFiles (loopFs st2) ''progress.txt'' = Some [entry1]
        \<and> prdFiles (loopFs st2) ''prd.json'' = Some prd12
        \<and> map passes (userStories (prd st2)) = [False, False])"
proof -
  have h1: "getNextStory (prd state12) = Some story1"
    by (simp add: state12_def prd12_def story1_def story2_def getNextStory_def)
  have h2: "success (workerNoPass 1 story1)"
    by (simp add: workerNoPass_def workerOk_def)
  have h3: "data (workerNoPass 1 story1) = Some (dataWith False)"
    by (simp add: workerNoPass_def workerOk_def)
  have h4: "\<not> dataPasses (dataWith False)"
    by (simp add: dataWith_def)
  have m: "map passes (userStories prd12) = [False, False]"
    by (simp add: prd12_def story1_def story2_def)
  from iteration_bookkeeping [where st = state12 and story = story1
      and worker = workerNoPass and it = 1 and d = "dataWith False"
      and opts = optsFailFast and cancelled = neverCancelled, OF h1 h2 h3 h4]
  obtain st2 where
    "loopBody optsFailFast workerNoPass neverCancelled 1 state12
       = (if neverCancelled 1 then Break st2 else Continue st2)"
    "prd st2 = prd state12"
    "logFiles (loopFs st2) =
         (case progressPath optsFailFast of
            None \<Rightarrow> logFiles (loopFs state12)
          | Some p \<Rightarrow> (logFiles (loopFs state12))(p \<mapsto>
              (case logFiles (loopFs state12) p of None \<Rightarrow> [] | Some es \<Rightarrow> es) @
              [\<lparr>storyId = sid story1, entrySummary = summary (dataWith False),
                entryFilesChanged = filesChanged (dataWith False),
                entryLearnings =
                  (case learnings (dataWith False) of None \<Rightarrow> [] | Some l \<Rightarrow> l)\<rparr>]))"
    "prdFiles (loopFs st2) = (prdFiles (loopFs state12))(taskFile optsFailFast \<mapsto> prd state12)"
    by blast
  then have "loopBody optsFailFast workerNoPass neverCancelled 1 state12 = Continue st2
        \<and> prd st2 = prd12
        \<and> logFiles (loopFs st2) ''progress.txt'' = Some [entry1]
        \<and> prdFiles (loopFs st2) ''prd.json'' = Some prd12"
    by (simp add: neverCancelled_def dataWith_def state12_def story1_def optsFailFast_def
        progressPath_def trackerInitialize_def files12_def entry1_def)
  with h1 h2 h3 h4 m show ?thesis by auto
qed

text \<open>
  Claim C2 as stated fails: the worker succeeds with a payload that does not pass, the
  story stays incomplete, and still the log gets an entry and the backlog is written.
\<close>

theorem passes_false_still_logged:
  "getNextStory (prd state12) = Some story1
   \<and> success (workerNoPass 1 story1)
   \<and> map_option dataPasses (data (workerNoPass 1 story1)) = Some False
   \<and> logFiles (loopFs state12) ''progress.txt'' = Some []
   \<and> loopBody optsFailFast workerNoPass neverCancelled 1 state12 =
       Continue \<lparr>prd = prd12,
         loopFs = \<lparr>prdFiles = [''prd.json'' \<mapsto> prd12],
                   logFiles = [''progress.txt'' \<mapsto> [entry1]]\<rparr>,
         history = [\<lparr>iteration = 1, taskId = ''US-001'', iterSuccess = True,
                     iterDuration = 5, commits = []\<rparr>]\<rparr>"
  by (simp add: state12_def prd12_def story1_def story2_def getNextStory_def
      workerNoPass_def workerOk_def dataWith_def trackerInitialize_def files12_def
      loopBody_def afterWorker_def Let_def optsFailFast_def progressPath_def
      trackerAppend_def prdSave_def neverCancelled_def entry1_def)

text \<open>
  With a payload that passes, the call of the missing method ends the run in its first
  iteration: the error is a \<^verbatim>\<open>TypeError\<close>, the result is the failure built by the
  \<^verbatim>\<open>catch\<close>, with the one iteration in its history; the log has no entry, the task file
  holds the backlog as it was loaded, no story passing.
\<close>

lemma passing_payload_ends_run:
  "thrownError (whileLoop optsFailFast workerPassing neverCancelled 0 state12)
     = Some (TypeError ''prd.markStoryComplete is not a function'')
   \<and> fst (execute optsFailFast workerPassing neverCancelled files12)
     = errorResult optsFailFast
         [\<lparr>iteration = 1, taskId = ''US-001'', iterSuccess = True, iterDuration = 5,
           commits = []\<rparr>]
   \<and> logFiles (snd (execute optsFailFast workerPassing neverCancelled files12))
        ''progress.txt'' = Some []
   \<and> prdFiles (snd (execute optsFailFast workerPassing neverCancelled files12))
        ''prd.json'' = Some prd12"
  by code_simp

section \<open>Fail-fast\<close>

text \<open>
  Claim C3 at a backlog of two incomplete stories under fail-fast, the worker failing on
  iteration 1: the loop throws \<^verbatim>\<open>TaskIncompleteError\<close> with counts 0 and 2, and the
  result that \<^verbatim>\<open>execute\<close> returns is a failure whose final state has a total of zero
  tasks; the history has the one iteration.
\<close>

theorem failFast_counts_lost:
  "length (getUserStories prd12) = 2
   \<and> thrownError (whileLoop optsFailFast workerFails neverCancelled 0 state12)
     = Some (TaskIncompleteError 0 2)
   \<and> loopSuccess (fst (execute optsFailFast workerFails neverCancelled files12)) = False
   \<and> completed (fst (execute optsFailFast workerFails neverCancelled files12)) = False
   \<and> stateTasksCompleted
        (finalState (fst (execute optsFailFast workerFails neverCancelled files12))) = 0
   \<and> stateTasksTotal
        (finalState (fst (execute optsFailFast workerFails neverCancelled files12))) = 0
   \<and> tasks (finalState (fst (execute optsFailFast workerFails neverCancelled files12))) = []
   \<and> map iteration
        (loopIterations (fst (execute optsFailFast workerFails neverCancelled files12)))
      = [1]"
  by code_simp

section \<open>The history of a run\<close>

lemma numberedTo_Nil: "numberedTo 0 []"
  by (simp add: numberedTo_def)

lemma numberedTo_snoc:
  "numberedTo k its \<Longrightarrow> iteration x = Suc k \<Longrightarrow> numberedTo (Suc k) (its @ [x])"
  by (simp add: numberedTo_def)

lemma numberedTo_length: "numberedTo k its \<Longrightarrow> length its = k"
proof -
  assume "numberedTo k its"
  then have "length (map iteration its) = length [1..<Suc k]" by (simp add: numberedTo_def)
  then show ?thesis by simp
qed

lemma afterWorker_history:
  "afterWorker opts story res st = Inr st1 \<Longrightarrow> history st1 = history st"
  by (auto simp: afterWorker_def Let_def split: option.splits if_splits)

lemma loopBody_numbered:
  assumes "numberedTo it (history st)"
  shows "case loopBody opts worker cancelled (Suc it) st of
           Return r fs \<Rightarrow> loopIterations r = history st
         | Throw e st1 \<Rightarrow> numberedTo (Suc it) (history st1)
         | Break st1 \<Rightarrow> numberedTo (Suc it) (history st1)
         | Continue st1 \<Rightarrow> numberedTo (Suc it) (history st1)"
proof (cases "getNextStory (prd st)")
  case None
  then show ?thesis by (simp add: loopBody_def)
next
  case (Some story)
  define st1 where "st1 = st\<lparr>history := history st @
     [\<lparr>iteration = Suc it, taskId = sid story, iterSuccess = success (worker (Suc it) story),
       iterDuration = duration (worker (Suc it) story), commits = []\<rparr>]\<rparr>"
  have n1: "numberedTo (Suc it) (history st1)"
    using assms by (simp add: st1_def numberedTo_snoc)
  show ?thesis
  proof (cases "afterWorker opts story (worker (Suc it) story) st1")
    case (Inl e)
    then show ?thesis using Some n1 by (simp add: loopBody_def Let_def st1_def)
  next
    case (Inr st2)
    then have "history st2 = history st1" by (rule afterWorker_history)
    then show ?thesis using Some n1 Inr by (simp add: loopBody_def Let_def st1_def)
  qed
qed

lemma whileLoop_numbered:
  "numberedTo it (history st) \<Longrightarrow>
   (case whileLoop opts worker cancelled it st of
      Return r fs \<Rightarrow> \<exists>k. numberedTo k (loopIterations r)
    | Throw e st1 \<Rightarrow> \<exists>k. numberedTo k (history st1)
    | Break st1 \<Rightarrow> \<exists>k. numberedTo k (history st1)
    | Continue st1 \<Rightarrow> False)"
proof (induction opts worker cancelled it st rule: whileLoop.induct)
  case (1 opts worker cancelled it st)
  show ?case
  proof (cases "int it < maxIterationsOr100 opts")
    case False
    then show ?thesis using "1.prems" by (subst whileLoop.simps) auto
  next
    case True
    note body = loopBody_numbered [OF "1.prems", of opts worker cancelled]
    show ?thesis
    proof (cases "loopBody opts worker cancelled (Suc it) st")
      case (Return r fs)
      then show ?thesis using True body "1.prems" by (subst whileLoop.simps) auto
    next
      case (Throw e st1)
      then show ?thesis using True body by (subst whileLoop.simps) auto
    next
      case (Break st1)
      then show ?thesis using True body by (subst whileLoop.simps) auto
    next
      case (Continue st1)
      then have "numberedTo (Suc it) (history st1)" using body by simp
      from "1.IH" [OF True Continue this]
      show ?thesis using True Continue by (subst whileLoop.simps) simp
    qed
  qed
qed

text \<open>
  Whatever the worker does, the iterations of the result of a loop are numbered from 1 in
  the order in which they ran.
\<close>

lemma execute_iterations_numbered:
  "numberedTo (length (loopIterations (fst (execute opts worker cancelled fs))))
     (loopIterations (fst (execute opts worker cancelled fs)))"
proof -
  have "\<exists>k. numberedTo k (loopIterations (fst (execute opts worker cancelled fs)))"
  proof (cases "prdLoad fs (taskFile opts)")
    case None
    then have "loopIterations (fst (execute opts worker cancelled fs)) = []"
      by (simp add: execute_def errorResult_def)
    then show ?thesis using numberedTo_Nil by auto
  next
    case (Some spec)
    define st0 where "st0 = \<lparr>prd = spec,
      loopFs = (case progressPath opts of Some p \<Rightarrow> trackerInitialize fs p | None \<Rightarrow> fs),
      history = []\<rparr>"
    have "numberedTo 0 (history st0)" by (simp add: st0_def numberedTo_Nil)
    from whileLoop_numbered [OF this, of opts worker cancelled]
    show ?thesis using Some
      by (auto simp: execute_def Let_def st0_def errorResult_def split: loop_step.splits)
  qed
  then obtain k where k: "numberedTo k (loopIterations (fst (execute opts worker cancelled fs)))"
    by blast
  then show ?thesis using numberedTo_length [OF k] by simp
qed

text \<open>
  When the loop throws, whatever the error carries, the result is built from the history
  alone: it is a failure whose final state has no tasks, none completed.
\<close>

lemma execute_after_throw:
  assumes "prdLoad fs (taskFile opts) = Some spec"
    and "whileLoop opts worker cancelled 0
           \<lparr>prd = spec,
            loopFs = (case progressPath opts of Some p \<Rightarrow> trackerInitialize fs p | None \<Rightarrow> fs),
            history = []\<rparr> = Throw e st1"
  shows "fst (execute opts worker cancelled fs) = errorResult opts (history st1)
     \<and> stateTasksTotal (finalState (fst (execute opts worker cancelled fs))) = 0
     \<and> stateTasksCompleted (finalState (fst (execute opts worker cancelled fs))) = 0"
  using assms by (simp add: execute_def Let_def errorResult_def)

section \<open>Progress updates\<close>

lemma mergeProgress_again:
  "mergeProgress t2 (Some (mergeProgress t1 old p)) p = (mergeProgress t1 old p)\<lparr>lastUpdate := t2\<rparr>"
  by (simp add: mergeProgress_def orElse_def split: option.splits)

lemma jobs_save: "jobs (save st j) = (jobs st)(jobId j \<mapsto> j)"
  by (simp add: save_def persistJob_def Let_def)

lemma updateProgress_found:
  "jobs st i = Some j \<Longrightarrow>
   updateProgress now st i p = Inr (save st (j\<lparr>progress := Some (mergeProgress now (progress j) p)\<rparr>))"
  by (simp add: updateProgress_def)

text \<open>
  Claim C9. For a stored job, \<^verbatim>\<open>updateProgress\<close> with the same partial progress twice
  in a row succeeds both times; the second call changes nothing but \<^verbatim>\<open>lastUpdate\<close>, which
  is the clock reading of the call; and after the first call every field that the partial
  progress leaves out has the value it had before, or zero (absent, for the optional
  fields) when the job had no progress yet.
\<close>

theorem updateProgress_idempotent:
  assumes "jobs st i = Some j" and "jobId j = i"
  shows "\<exists>st1 st2 p1.
      updateProgress t1 st i p = Inr st1 \<and> updateProgress t2 st1 i p = Inr st2
    \<and> jobs st1 = (jobs st)(i \<mapsto> j\<lparr>progress := Some p1\<rparr>)
    \<and> jobs st2 = (jobs st)(i \<mapsto> j\<lparr>progress := Some (p1\<lparr>lastUpdate := t2\<rparr>)\<rparr>)
    \<and> lastUpdate p1 = t1
    \<and> currentIteration p1 = (case pCurrentIteration p of Some v \<Rightarrow> v
         | None \<Rightarrow> (case progress j of Some old \<Rightarrow> currentIteration old | None \<Rightarrow> 0))
    \<and> totalIterations p1 = (case pTotalIterations p of Some v \<Rightarrow> Some v
         | None \<Rightarrow> (case progress j of Some old \<Rightarrow> totalIterations old | None \<Rightarrow> None))
    \<and> currentTaskId p1 = (case pCurrentTaskId p of Some v \<Rightarrow> Some v
         | None \<Rightarrow> (case progress j of Some old \<Rightarrow> currentTaskId old | None \<Rightarrow> None))
    \<and> tasksCompleted p1 = (case pTasksCompleted p of Some v \<Rightarrow> v
         | None \<Rightarrow> (case progress j of Some old \<Rightarrow> tasksCompleted old | None \<Rightarrow> 0))
    \<and> tasksTotal p1 = (case pTasksTotal p of Some v \<Rightarrow> v
         | None \<Rightarrow> (case progress j of Some old \<Rightarrow> tasksTotal old | None \<Rightarrow> 0))
    \<and> message p1 = (case pMessage p of Some v \<Rightarrow> Some v
         | None \<Rightarrow> (case progress j of Some old \<Rightarrow> message old | None \<Rightarrow> None))"
proof -
  define p1 where "p1 = mergeProgress t1 (progress j) p"
  define st1 where "st1 = save st (j\<lparr>progress := Some p1\<rparr>)"
  define st2 where "st2 = save st1 (j\<lparr>progress := Some (p1\<lparr>lastUpdate := t2\<rparr>)\<rparr>)"
  have u1: "updateProgress t1 st i p = Inr st1"
    using assms(1) by (simp add: updateProgress_found st1_def p1_def)
  have j1: "jobs st1 = (jobs st)(i \<mapsto> j\<lparr>progress := Some p1\<rparr>)"
    using assms(2) by (simp add: st1_def jobs_save)
  then have "jobs st1 i = Some (j\<lparr>progress := Some p1\<rparr>)" by simp
  then have u2: "updateProgress t2 st1 i p = Inr st2"
    by (simp add: updateProgress_found st2_def p1_def mergeProgress_again)
  have j2: "jobs st2 = (jobs st)(i \<mapsto> j\<lparr>progress := Some (p1\<lparr>lastUpdate := t2\<rparr>)\<rparr>)"
    using assms(2) j1 by (simp add: st2_def jobs_save)
  have f: "lastUpdate p1 = t1
    \<and> currentIteration p1 = (case pCurrentIteration p of Some v \<Rightarrow> v
         | None \<Rightarrow> (case progress j of Some old \<Rightarrow> currentIteration old | None \<Rightarrow> 0))
    \<and> totalIterations p1 = (case pTotalIterations p of Some v \<Rightarrow> Some v
         | None \<Rightarrow> (case progress j of Some old \<Rightarrow> totalIterations old | None \<Rightarrow> None))
    \<and> currentTaskId p1 = (case pCurrentTaskId p of Some v \<Rightarrow> Some v
         | None \<Rightarrow> (case progress j of Some old \<Rightarrow> currentTaskId old | None \<Rightarrow> None))
    \<and> tasksCompleted p1 = (case pTasksCompleted p of Some v \<Rightarrow> v
         | None \<Rightarrow> (case progress j of Some old \<Rightarrow> tasksCompleted old | None \<Rightarrow> 0))
    \<and> tasksTotal p1 = (case pTasksTotal p of Some v \<Rightarrow> v
         | None \<Rightarrow> (case progress j of Some old \<Rightarrow> tasksTotal old | None \<Rightarrow> 0))
    \<and> message p1 = (case pMessage p of Some v \<Rightarrow> Some v
         | None \<Rightarrow> (case progress j of Some old \<Rightarrow> message old | None \<Rightarrow> None))"
    by (simp add: p1_def mergeProgress_def orElse_def split: option.splits)
  show ?thesis
    using u1 u2 j1 j2 f by blast
qed

text \<open>Claim C9 at a running single-shot job, setting \<^verbatim>\<open>tasksCompleted\<close> to 1 twice.\<close>

theorem updateProgress_idempotent_witness:
  "jobs storeOne ''job-1'' = Some jobOne \<and> jobId jobOne = ''job-1''
   \<and> (\<exists>st1 st2.
        updateProgress 10 storeOne ''job-1'' completedOnly = Inr st1
      \<and> updateProgress 20 st1 ''job-1'' completedOnly = Inr st2
      \<and> map_option progress (jobs st1 ''job-1'') =
          Some (Some (progressOne\<lparr>tasksCompleted := 1, lastUpdate := 10\<rparr>))
      \<and> map_option progress (jobs st2 ''job-1'') =
          Some (Some (progressOne\<lparr>tasksCompleted := 1, lastUpdate := 20\<rparr>)))"
proof -
  have h1: "jobs storeOne ''job-1'' = Some jobOne" by (simp add: storeOne_def)
  have h2: "jobId jobOne = ''job-1''" by (simp add: jobOne_def)
  from updateProgress_idempotent [OF h1 h2, of 10 completedOnly 20]
  obtain st1 st2 p1 where r:
    "updateProgress 10 storeOne ''job-1'' completedOnly = Inr st1"
    "updateProgress 20 st1 ''job-1'' completedOnly = Inr st2"
    "jobs st1 = (jobs storeOne)(''job-1'' \<mapsto> jobOne\<lparr>progress := Some p1\<rparr>)"
    "jobs st2 = (jobs storeOne)(''job-1'' \<mapsto> jobOne\<lparr>progress := Some (p1\<lparr>lastUpdate := 20\<rparr>)\<rparr>)"
    by blast
  from r(1) have "st1 = save storeOne
      (jobOne\<lparr>progress := Some (mergeProgress 10 (progress jobOne) completedOnly)\<rparr>)"
    using h1 by (simp add: updateProgress_def)
  then have "jobs st1 ''job-1'' =
      Some (jobOne\<lparr>progress := Some (progressOne\<lparr>tasksCompleted := 1, lastUpdate := 10\<rparr>)\<rparr>)"
    by (simp add: save_def jobOne_def storeOne_def mergeProgress_def orElse_def
        completedOnly_def noProgress_def progressOne_def)
  with r(3) have p1: "p1 = progressOne\<lparr>tasksCompleted := 1, lastUpdate := 10\<rparr>"
    by (simp add: jobOne_def)
  have "map_option progress (jobs st1 ''job-1'') =
          Some (Some (progressOne\<lparr>tasksCompleted := 1, lastUpdate := 10\<rparr>))"
    using r(3) p1 by simp
  moreover have "map_option progress (jobs st2 ''job-1'') =
          Some (Some (progressOne\<lparr>tasksCompleted := 1, lastUpdate := 20\<rparr>))"
    using r(4) p1 by simp
  ultimately show ?thesis using h1 h2 r(1,2) by blast
qed

section \<open>Invariants of the store\<close>

text \<open>
  Every operation of the store keeps the jobs under their own ids, and saving and deleting
  keep the files named after the ids of the jobs they hold.
\<close>

lemma keyed_new: "keyed (newJobStore persist age)"
  by (simp add: keyed_def newJobStore_def)

lemma keyed_save: "keyed st \<Longrightarrow> keyed (save st j)"
  by (simp add: keyed_def jobs_save)

lemma keyed_updateStatus: "keyed st \<Longrightarrow> updateStatus now st i s e = Inr st1 \<Longrightarrow> keyed st1"
  by (auto simp: updateStatus_def Let_def keyed_def jobs_save split: option.splits if_splits)

lemma keyed_updateProgress: "keyed st \<Longrightarrow> updateProgress now st i p = Inr st1 \<Longrightarrow> keyed st1"
  by (auto simp: updateProgress_def keyed_def jobs_save split: option.splits if_splits)

lemma keyed_updateResult: "keyed st \<Longrightarrow> updateResult st i r = Inr st1 \<Longrightarrow> keyed st1"
  by (auto simp: updateResult_def keyed_def jobs_save split: option.splits if_splits)

lemma keyed_delete: "keyed st \<Longrightarrow> keyed (delete st i)"
  by (simp add: keyed_def delete_def Let_def)

lemma keyed_loadFile: "keyed st \<Longrightarrow> keyed (loadFile now st f)"
  by (auto simp: keyed_def loadFile_def Let_def split: job_file.splits if_splits)

lemma keyed_initialize: "keyed st \<Longrightarrow> keyed (initialize now st)"
proof -
  have "keyed st \<Longrightarrow> keyed (foldl (loadFile now) st fs)" for fs
    by (induction fs arbitrary: st) (simp_all add: keyed_loadFile)
  then show "keyed st \<Longrightarrow> keyed (initialize now st)"
    by (simp add: initialize_def loadPersistedJobs_def)
qed

lemma set_update_subset:
  "set (AList.update k v al) \<subseteq> insert (k, v) (set al)"
  by (induction al) auto

lemma namedById_Nil: "namedById []"
  by (simp add: namedById_def)

lemma namedById_save: "namedById (files st) \<Longrightarrow> namedById (files (save st j))"
proof -
  assume n: "namedById (files st)"
  have "sId (serializeJob j) = jobId j" by (simp add: serializeJob_def)
  then have "namedById (AList.update (getJobFilePath (jobId j)) (JobFile (serializeJob j)) (files st))"
    using n set_update_subset [of "getJobFilePath (jobId j)" "JobFile (serializeJob j)" "files st"]
    unfolding namedById_def by (auto simp: distinct_update)
  then show ?thesis using n by (simp add: save_def persistJob_def Let_def)
qed

lemma namedById_delete: "namedById (files st) \<Longrightarrow> namedById (files (delete st i))"
  by (auto simp: namedById_def delete_def Let_def AList.delete_eq distinct_map_filter)

lemma namedById_json:
  "namedById fs \<Longrightarrow>
   distinct (map fst fs)
   \<and> (\<forall>n s. (n, JobFile s) \<in> set fs \<and> endsWith n ''.json'' \<longrightarrow> n = getJobFilePath (sId s))"
  by (simp add: namedById_def)

section \<open>Loading the persisted jobs\<close>

lemma deserializeJob_fields [simp]:
  "jobId (deserializeJob s) = sId s"
  "status (deserializeJob s) = sStatus s"
  "createdAt (deserializeJob s) = sCreatedAt s"
  "completedAt (deserializeJob s) = sCompletedAt s"
  by (simp_all add: deserializeJob_def)


lemma loadFile_options [simp]:
  "persistToFile (loadFile now st f) = persistToFile st"
  "maxJobAge (loadFile now st f) = maxJobAge st"
  by (simp_all add: loadFile_def Let_def split: job_file.splits)

lemma foldl_loadFile_maxJobAge [simp]:
  "maxJobAge (foldl (loadFile now) st fs) = maxJobAge st"
  by (induction fs arbitrary: st) simp_all

lemma loadFile_Malformed [simp]: "snd f = Malformed \<Longrightarrow> loadFile now st f = st"
  by (simp add: loadFile_def)








lemma getJobFilePath_inj: "getJobFilePath a = getJobFilePath b \<Longrightarrow> a = b"
  by (simp add: getJobFilePath_def)










section \<open>Polling\<close>

lemma poll_found:
  "get (store (ensureInitialized now m)) i = Some j \<Longrightarrow>
   poll now m i = (PollResult (pollJob j), ensureInitialized now m)"
  by (simp add: poll_def Let_def)

text \<open>
  Claim C6. For a job in the store, \<^verbatim>\<open>poll\<close> returns a snapshot that is finished exactly
  when the status is completed, failed or cancelled; the snapshot carries the result of
  the job when it is finished and no result otherwise; it has a duration exactly when it
  is finished and the job has both its start and its completion time, and the duration
  is then their difference. Id, status, progress and error are those of the job.
\<close>

theorem poll_snapshot:
  assumes "get (store (ensureInitialized now m)) i = Some j"
  shows "\<exists>r. fst (poll now m i) = PollResult r
     \<and> (finished r \<longleftrightarrow> status j \<in> {Completed, Failed, Cancelled})
     \<and> pollResult r = (if finished r then result j else None)
     \<and> (pollDuration r \<noteq> None \<longleftrightarrow>
          finished r \<and> completedAt j \<noteq> None \<and> startedAt j \<noteq> None)
     \<and> (\<forall>c s. finished r \<and> completedAt j = Some c \<and> startedAt j = Some s
          \<longrightarrow> pollDuration r = Some (c - s))
     \<and> pollId r = jobId j \<and> pollStatus r = status j \<and> pollProgress r = progress j
     \<and> pollError r = error j"
proof -
  have "fst (poll now m i) = PollResult (pollJob j)"
    using assms by (simp add: poll_found)
  moreover have "finished (pollJob j) \<longleftrightarrow> status j \<in> {Completed, Failed, Cancelled}"
    by (simp add: pollJob_def Let_def isTerminal_def)
  moreover have "pollResult (pollJob j) = (if finished (pollJob j) then result j else None)"
    by (simp add: pollJob_def Let_def)
  moreover have "pollDuration (pollJob j) \<noteq> None \<longleftrightarrow>
          finished (pollJob j) \<and> completedAt j \<noteq> None \<and> startedAt j \<noteq> None"
    by (simp add: pollJob_def Let_def split: option.splits)
  moreover have "\<forall>c s. finished (pollJob j) \<and> completedAt j = Some c \<and> startedAt j = Some s
          \<longrightarrow> pollDuration (pollJob j) = Some (c - s)"
    by (simp add: pollJob_def Let_def)
  moreover have "pollId (pollJob j) = jobId j \<and> pollStatus (pollJob j) = status j
     \<and> pollProgress (pollJob j) = progress j \<and> pollError (pollJob j) = error j"
    by (simp add: pollJob_def Let_def)
  ultimately show ?thesis by blast
qed

text \<open>Claim C6 at a single-shot job started at time 1 and completed at time 7.\<close>

theorem poll_snapshot_witness:
  "get (store (ensureInitialized 9 managerDone)) ''job-1'' = Some jobFinished
   \<and> (\<exists>r. fst (poll 9 managerDone ''job-1'') = PollResult r
        \<and> finished r \<and> pollStatus r = Completed
        \<and> pollResult r = Some (SingleShotResult workerDone)
        \<and> pollDuration r = Some 6)"
proof -
  have h: "get (store (ensureInitialized 9 managerDone)) ''job-1'' = Some jobFinished"
    by code_simp
  from poll_snapshot [OF h] obtain r where r:
    "fst (poll 9 managerDone ''job-1'') = PollResult r"
    "finished r \<longleftrightarrow> status jobFinished \<in> {Completed, Failed, Cancelled}"
    "pollResult r = (if finished r then result jobFinished else None)"
    "\<forall>c s. finished r \<and> completedAt jobFinished = Some c \<and> startedAt jobFinished = Some s
          \<longrightarrow> pollDuration r = Some (c - s)"
    "pollStatus r = status jobFinished"
    by blast
  have f: "finished r" using r(2) by (simp add: jobFinished_def)
  moreover have "pollResult r = Some (SingleShotResult workerDone)"
    using r(3) f by (simp add: jobFinished_def)
  moreover have "pollDuration r = Some 6"
    using r(4) f by (simp add: jobFinished_def)
  moreover have "pollStatus r = Completed" using r(5) by (simp add: jobFinished_def)
  ultimately show ?thesis using h r(1) by blast
qed

section \<open>Terminal statuses\<close>

text \<open>
  Claim C1 at a single-shot job that is cancelled while its worker runs: \<^verbatim>\<open>cancel\<close>
  returns true and the job is cancelled; when the worker then returns with success, the
  last segment of \<^verbatim>\<open>executeSingleShot\<close> sets the status to completed. A loop job whose
  worker succeeds with payloads that do not pass, cancelled during its second iteration,
  keeps the status cancelled when the loop returns, since \<^verbatim>\<open>executeLoop\<close> looks at the
  status first.
\<close>

theorem cancelled_single_shot_completes:
  "fst (runOps (newJobManager False 86400000 None)
     [(1, StartSingleShotOp optsSingle (Some ''job-1'') ''uuid-1''),
      (3, CancelOp ''job-1'')]) = [StartedJob ''job-1'', CancelResult True]
   \<and> map_option status (get (store managerCancelled) ''job-1'') = Some Cancelled
   \<and> map_option status
        (get (store (finishSingleShot 7 managerCancelled ''job-1'' workerDone)) ''job-1'')
      = Some Completed
   \<and> map iterSuccess (loopIterations loopRunCancelled) = [True, True]
   \<and> loopSuccess loopRunCancelled = False
   \<and> fst (runOps managerLoop
        [(3, CancelOp ''loop-1''),
         (4, LoopIterates ''loop-1'' (loopIterations loopRunCancelled ! 1)),
         (5, LoopReturns ''loop-1'' loopRunCancelled)])
      = [CancelResult True, Background, Background]
   \<and> map_option status (get (store managerLoopCancelled) ''loop-1'') = Some Cancelled"
  by code_simp

section \<open>Progress of a running loop job\<close>

text \<open>
  Claim C8 at a loop job over a backlog of two stories, the worker succeeding with a
  payload that does not pass, after the callback of the first iteration: the job is
  running and its progress has one task completed out of a total of zero, the total being
  still the one the job was created with.
\<close>

theorem loop_progress_exceeds_total:
  "map iterSuccess (loopIterations loopRun) = [True, True]
   \<and> map taskId (loopIterations loopRun) = [''US-001'', ''US-001'']
   \<and> map_option status (get (store managerLoop) ''loop-1'') = Some Running
   \<and> Option.bind (get (store managerLoop) ''loop-1'') progress =
       Some \<lparr>currentIteration = 1, totalIterations = None, currentTaskId = Some ''US-001'',
         tasksCompleted = 1, tasksTotal = 0, lastUpdate = 2,
         message = Some ''Completed iteration 1: US-001''\<rparr>"
  by code_simp

section \<open>Starting a job\<close>

lemma ensureInitialized_fields [simp]:
  "runningJobs (ensureInitialized now m) = runningJobs m"
  "maxConcurrentJobs (ensureInitialized now m) = maxConcurrentJobs m"
  "nextToken (ensureInitialized now m) = nextToken m"
  "cancellationTokens (ensureInitialized now m) = cancellationTokens m"
  "initialized (ensureInitialized now m)"
  by (simp_all add: ensureInitialized_def)

lemma limitReached_ensureInitialized [simp]:
  "limitReached (ensureInitialized now m) = limitReached m"
  "limitOf (ensureInitialized now m) = limitOf m"
  by (simp_all add: limitReached_def limitOf_def cong: option.case_cong)

text \<open>The first segment of an execution succeeds on the job that was just saved.\<close>

lemma beginExecution_after_save:
  assumes "startedAt j = None"
  shows "\<exists>st2. beginExecution now (save st j) (jobId j) msg = Inr st2
     \<and> jobs st2 = (jobs st)(jobId j \<mapsto>
          j\<lparr>status := Running, startedAt := Some now,
            progress := Some (mergeProgress now (progress j) (messageOnly msg))\<rparr>)"
  using assms
  by (simp add: beginExecution_def updateStatus_def updateProgress_def jobs_save Let_def
      isTerminal_def)

lemma startSingleShot_admitted:
  assumes "\<not> limitReached m"
  shows "\<exists>st2. startSingleShot now m opts requested uuid =
       (StartedJob (case requested of Some r \<Rightarrow> r | None \<Rightarrow> uuid),
        (ensureInitialized now m)\<lparr>store := st2,
           runningJobs := keySet (case requested of Some r \<Rightarrow> r | None \<Rightarrow> uuid)
                            (runningJobs m)\<rparr>)
     \<and> jobs st2 = (jobs (store (ensureInitialized now m)))
          ((case requested of Some r \<Rightarrow> r | None \<Rightarrow> uuid) \<mapsto>
             (createSingleShotJob now (case requested of Some r \<Rightarrow> r | None \<Rightarrow> uuid) opts)
               \<lparr>status := Running, startedAt := Some now,
                progress := Some \<lparr>currentIteration = 0, totalIterations = None,
                  currentTaskId = None, tasksCompleted = 0, tasksTotal = 1,
                  lastUpdate = now, message = Some ''Executing task...''\<rparr>\<rparr>)"
proof -
  define i where "i = (case requested of Some r \<Rightarrow> r | None \<Rightarrow> uuid)"
  define j where "j = createSingleShotJob now i opts"
  have ji: "jobId j = i" and js: "startedAt j = None"
    by (simp_all add: j_def createSingleShotJob_def)
  from beginExecution_after_save [OF js, of now "store (ensureInitialized now m)"
      "''Executing task...''"]
  obtain st2 where b: "beginExecution now (save (store (ensureInitialized now m)) j) i
        ''Executing task...'' = Inr st2"
    and jb: "jobs st2 = (jobs (store (ensureInitialized now m)))(i \<mapsto>
          j\<lparr>status := Running, startedAt := Some now,
            progress := Some (mergeProgress now (progress j)
              (messageOnly ''Executing task...''))\<rparr>)"
    unfolding ji by blast
  have p: "mergeProgress now (progress j) (messageOnly ''Executing task...'') =
      \<lparr>currentIteration = 0, totalIterations = None,
        currentTaskId = None, tasksCompleted = 0, tasksTotal = 1,
        lastUpdate = now, message = Some ''Executing task...''\<rparr>"
    by (simp add: j_def createSingleShotJob_def mergeProgress_def messageOnly_def
        noProgress_def orElse_def)
  have "startSingleShot now m opts requested uuid =
       (StartedJob i, (ensureInitialized now m)\<lparr>store := st2,
           runningJobs := keySet i (runningJobs m)\<rparr>)"
    using assms b by (simp add: startSingleShot_def Let_def i_def [symmetric] j_def [symmetric])
  with jb p show ?thesis unfolding i_def [symmetric] j_def [symmetric] by auto
qed

lemma startLoop_admitted:
  assumes "\<not> limitReached m"
  shows "\<exists>st2. startLoop now m opts requested uuid =
       (StartedJob (case requested of Some r \<Rightarrow> r | None \<Rightarrow> uuid),
        (ensureInitialized now m)\<lparr>tokens := (tokens (ensureInitialized now m))
             (nextToken m := False),
           nextToken := Suc (nextToken m),
           cancellationTokens := (cancellationTokens m)
             ((case requested of Some r \<Rightarrow> r | None \<Rightarrow> uuid) \<mapsto> nextToken m),
           store := st2,
           runningJobs := keySet (case requested of Some r \<Rightarrow> r | None \<Rightarrow> uuid)
                            (runningJobs m)\<rparr>)
     \<and> jobs st2 = (jobs (store (ensureInitialized now m)))
          ((case requested of Some r \<Rightarrow> r | None \<Rightarrow> uuid) \<mapsto>
             (createLoopJob now (case requested of Some r \<Rightarrow> r | None \<Rightarrow> uuid) opts
                (nextToken m))
               \<lparr>status := Running, startedAt := Some now,
                progress := Some \<lparr>currentIteration = 0, totalIterations = None,
                  currentTaskId = None, tasksCompleted = 0, tasksTotal = 0,
                  lastUpdate = now, message = Some ''Starting loop execution...''\<rparr>\<rparr>)"
proof -
  define i where "i = (case requested of Some r \<Rightarrow> r | None \<Rightarrow> uuid)"
  define j where "j = createLoopJob now i opts (nextToken m)"
  have ji: "jobId j = i" and js: "startedAt j = None"
    by (simp_all add: j_def createLoopJob_def)
  from beginExecution_after_save [OF js, of now "store (ensureInitialized now m)"
      "''Starting loop execution...''"]
  obtain st2 where b: "beginExecution now (save (store (ensureInitialized now m)) j) i
        ''Starting loop execution...'' = Inr st2"
    and jb: "jobs st2 = (jobs (store (ensureInitialized now m)))(i \<mapsto>
          j\<lparr>status := Running, startedAt := Some now,
            progress := Some (mergeProgress now (progress j)
              (messageOnly ''Starting loop execution...''))\<rparr>)"
    unfolding ji by blast
  have p: "mergeProgress now (progress j) (messageOnly ''Starting loop execution...'') =
      \<lparr>currentIteration = 0, totalIterations = None,
        currentTaskId = None, tasksCompleted = 0, tasksTotal = 0,
        lastUpdate = now, message = Some ''Starting loop execution...''\<rparr>"
    by (simp add: j_def createLoopJob_def mergeProgress_def messageOnly_def
        noProgress_def orElse_def)
  have "startLoop now m opts requested uuid =
       (StartedJob i, (ensureInitialized now m)\<lparr>tokens := (tokens (ensureInitialized now m))
             (nextToken m := False),
           nextToken := Suc (nextToken m),
           cancellationTokens := (cancellationTokens m)(i \<mapsto> nextToken m),
           store := st2, runningJobs := keySet i (runningJobs m)\<rparr>)"
    using assms b by (simp add: startLoop_def Let_def i_def [symmetric] j_def [symmetric])
  with jb p show ?thesis unfolding i_def [symmetric] j_def [symmetric] by auto
qed






section \<open>Admission\<close>

lemma limitReached_iff:
  "limitReached m \<longleftrightarrow> (\<exists>n. maxConcurrentJobs m = Some n \<and> n \<le> getRunningCount m)"
  by (simp add: limitReached_def getRunningCount_def split: option.splits)

lemma startSingleShot_rejected:
  "limitReached m \<Longrightarrow>
   startSingleShot now m opts requested uuid
     = (Raised (AdmissionRejected (limitOf m)), ensureInitialized now m)"
  by (simp add: startSingleShot_def Let_def)

lemma startLoop_rejected:
  "limitReached m \<Longrightarrow>
   startLoop now m opts requested uuid
     = (Raised (AdmissionRejected (limitOf m)), ensureInitialized now m)"
  by (simp add: startLoop_def Let_def)

lemma step_start_rejected:
  assumes "startedId op = Some i" and "limitReached m"
  shows "fst (step now m op) = Raised (AdmissionRejected (limitOf m))"
  using assms by (cases op) (simp_all add: startSingleShot_rejected startLoop_rejected)

lemma step_start_admitted:
  assumes "startedId op = Some i" and "\<not> limitReached m"
  shows "fst (step now m op) = StartedJob i
     \<and> runningJobs (snd (step now m op)) = keySet i (runningJobs m)
     \<and> maxConcurrentJobs (snd (step now m op)) = maxConcurrentJobs m"
proof (cases op)
  case (StartSingleShotOp opts requested uuid)
  from startSingleShot_admitted [OF assms(2), of now opts requested uuid]
  show ?thesis using assms(1) StartSingleShotOp by auto
next
  case (StartLoopOp opts requested uuid)
  from startLoop_admitted [OF assms(2), of now opts requested uuid]
  show ?thesis using assms(1) StartLoopOp by auto
qed (use assms(1) in simp_all)

lemma cancel_runningJobs:
  "runningJobs (snd (cancel now m i)) = runningJobs m
   \<and> maxConcurrentJobs (snd (cancel now m i)) = maxConcurrentJobs m"
  by (simp add: cancel_def Let_def split: option.splits sum.splits)

lemma finishSingleShot_runningJobs:
  "runningJobs (finishSingleShot now m i r) = removeAll i (runningJobs m)
   \<and> maxConcurrentJobs (finishSingleShot now m i r) = maxConcurrentJobs m"
  by (simp add: finishSingleShot_def Let_def keyDelete_def)

lemma finishLoop_runningJobs:
  "runningJobs (finishLoop now m i r) = removeAll i (runningJobs m)
   \<and> maxConcurrentJobs (finishLoop now m i r) = maxConcurrentJobs m"
  by (simp add: finishLoop_def Let_def keyDelete_def)

lemma startedIds_Cons:
  "startedIds ((t, op) # ops) =
     (case startedId op of Some i \<Rightarrow> i # startedIds ops | None \<Rightarrow> startedIds ops)"
  by (simp add: startedIds_def split: option.splits)

lemma runOps_starts:
  assumes "allStarts ops" and "distinct (runningJobs m @ startedIds ops)"
    and "maxConcurrentJobs m = Some N" and "length (runningJobs m) + length ops \<le> N"
  shows "fst (runOps m ops) = map StartedJob (startedIds ops)
     \<and> runningJobs (snd (runOps m ops)) = runningJobs m @ startedIds ops
     \<and> maxConcurrentJobs (snd (runOps m ops)) = Some N"
  using assms
proof (induction ops arbitrary: m)
  case Nil
  then show ?case by (simp add: startedIds_def)
next
  case (Cons x ops)
  obtain t op where x: "x = (t, op)" by (cases x)
  from Cons.prems(1) x obtain i where i: "startedId op = Some i" and rest: "allStarts ops"
    by (auto simp: allStarts_def)
  have ids: "startedIds (x # ops) = i # startedIds ops"
    using i x by (simp add: startedIds_Cons)
  have free: "\<not> limitReached m"
    using Cons.prems(3,4) by (simp add: limitReached_def)
  from step_start_admitted [OF i free, of t]
  have s: "fst (step t m op) = StartedJob i"
    "runningJobs (snd (step t m op)) = keySet i (runningJobs m)"
    "maxConcurrentJobs (snd (step t m op)) = Some N"
    using Cons.prems(3) by simp_all
  have new: "i \<notin> set (runningJobs m)" using Cons.prems(2) ids by auto
  then have r: "runningJobs (snd (step t m op)) = runningJobs m @ [i]"
    using s(2) by (simp add: keySet_def)
  have d: "distinct (runningJobs (snd (step t m op)) @ startedIds ops)"
    using Cons.prems(2) ids r by auto
  have n: "length (runningJobs (snd (step t m op))) + length ops \<le> N"
    using Cons.prems(4) r by simp
  from Cons.IH [OF rest d s(3) n]
  have ih: "fst (runOps (snd (step t m op)) ops) = map StartedJob (startedIds ops)"
    "runningJobs (snd (runOps (snd (step t m op)) ops))
       = runningJobs (snd (step t m op)) @ startedIds ops"
    "maxConcurrentJobs (snd (runOps (snd (step t m op)) ops)) = Some N"
    by simp_all
  show ?case
    using s(1) ih r ids x by (simp add: case_prod_beta)
qed

lemma length_startedIds: "allStarts ops \<Longrightarrow> length (startedIds ops) = length ops"
  by (induction ops) (auto simp: allStarts_def startedIds_def)

text \<open>
  Claim C5, as amended. A start is rejected with the admission error exactly when the
  limit \<open>N\<close> is set and the number of background executions in flight (the size of
  \<open>runningJobs\<close>) is at least \<open>N\<close>. From a manager with no execution in flight, \<open>N\<close>
  starts under different ids all succeed; the next start is rejected; it is still
  rejected after one of the jobs is cancelled, since the cancelled execution is still in
  flight; and it succeeds once the execution of one of the jobs has ended.
\<close>

theorem admission_counts_executions:
  "(fst (startSingleShot now m opts requested uuid) = Raised (AdmissionRejected (limitOf m))
      \<longleftrightarrow> (\<exists>n. maxConcurrentJobs m = Some n \<and> n \<le> getRunningCount m))
   \<and> (fst (startLoop now m lopts requested uuid) = Raised (AdmissionRejected (limitOf m))
      \<longleftrightarrow> (\<exists>n. maxConcurrentJobs m = Some n \<and> n \<le> getRunningCount m))
   \<and> (maxConcurrentJobs m = Some N \<and> runningJobs m = [] \<and> allStarts ops
        \<and> distinct (startedIds ops) \<and> length ops = N
        \<and> startedId another = Some k \<and> i \<in> set (startedIds ops) \<longrightarrow>
          fst (runOps m ops) = map StartedJob (startedIds ops)
        \<and> getRunningCount (snd (runOps m ops)) = N
        \<and> fst (step ta (snd (runOps m ops)) another) = Raised (AdmissionRejected N)
        \<and> fst (step tb (snd (step ta (snd (runOps m ops)) (CancelOp i))) another)
            = Raised (AdmissionRejected N)
        \<and> fst (step tb (finishSingleShot ta (snd (runOps m ops)) i r) another) = StartedJob k
        \<and> fst (step tb (finishLoop ta (snd (runOps m ops)) i lr) another) = StartedJob k)"
proof (intro conjI impI)
  show "fst (startSingleShot now m opts requested uuid) = Raised (AdmissionRejected (limitOf m))
      \<longleftrightarrow> (\<exists>n. maxConcurrentJobs m = Some n \<and> n \<le> getRunningCount m)"
  proof (cases "limitReached m")
    case True
    then show ?thesis using limitReached_iff [of m] by (simp add: startSingleShot_rejected)
  next
    case False
    from startSingleShot_admitted [OF False, of now opts requested uuid]
    show ?thesis using False limitReached_iff [of m] by auto
  qed
next
  show "fst (startLoop now m lopts requested uuid) = Raised (AdmissionRejected (limitOf m))
      \<longleftrightarrow> (\<exists>n. maxConcurrentJobs m = Some n \<and> n \<le> getRunningCount m)"
  proof (cases "limitReached m")
    case True
    then show ?thesis using limitReached_iff [of m] by (simp add: startLoop_rejected)
  next
    case False
    from startLoop_admitted [OF False, of now lopts requested uuid]
    show ?thesis using False limitReached_iff [of m] by auto
  qed
next
  assume h: "maxConcurrentJobs m = Some N \<and> runningJobs m = [] \<and> allStarts ops
        \<and> distinct (startedIds ops) \<and> length ops = N
        \<and> startedId another = Some k \<and> i \<in> set (startedIds ops)"
  define mN where "mN = snd (runOps m ops)"
  from h have "allStarts ops" "distinct (runningJobs m @ startedIds ops)"
    "maxConcurrentJobs m = Some N" "length (runningJobs m) + length ops \<le> N" by simp_all
  from runOps_starts [OF this]
  have run: "fst (runOps m ops) = map StartedJob (startedIds ops)"
    "runningJobs mN = startedIds ops" "maxConcurrentJobs mN = Some N"
    using h by (simp_all add: mN_def)
  have len: "length (startedIds ops) = N" using h by (simp add: length_startedIds)
  have full: "limitReached mN" "limitOf mN = N"
    using run len by (simp_all add: limitReached_def limitOf_def)
  have nk: "startedId another = Some k" using h by simp
  have r1: "fst (step ta mN another) = Raised (AdmissionRejected N)"
    using step_start_rejected [OF nk full(1), of ta] full(2) by simp
  have "limitReached (snd (step ta mN (CancelOp i)))"
    "limitOf (snd (step ta mN (CancelOp i))) = N"
    using cancel_runningJobs [of ta mN i] run len by (simp_all add: limitReached_def limitOf_def)
  then have r2: "fst (step tb (snd (step ta mN (CancelOp i))) another) = Raised (AdmissionRejected N)"
    using step_start_rejected [OF nk, of "snd (step ta mN (CancelOp i))" tb] by simp
  have less: "length (removeAll i (startedIds ops)) < N"
    using h len length_removeAll_less [of i "startedIds ops"] by simp
  have "\<not> limitReached (finishSingleShot ta mN i r)"
    using finishSingleShot_runningJobs [of ta mN i r] run less by (simp add: limitReached_def)
  then have r3: "fst (step tb (finishSingleShot ta mN i r) another) = StartedJob k"
    using step_start_admitted [OF nk, of "finishSingleShot ta mN i r" tb] by simp
  have "\<not> limitReached (finishLoop ta mN i lr)"
    using finishLoop_runningJobs [of ta mN i lr] run less by (simp add: limitReached_def)
  then have r4: "fst (step tb (finishLoop ta mN i lr) another) = StartedJob k"
    using step_start_admitted [OF nk, of "finishLoop ta mN i lr" tb] by simp
  have cnt: "getRunningCount mN = N" using run len by (simp add: getRunningCount_def)
  show "fst (runOps m ops) = map StartedJob (startedIds ops)" by (rule run(1))
  show "getRunningCount (snd (runOps m ops)) = N" using cnt by (simp add: mN_def)
  show "fst (step ta (snd (runOps m ops)) another) = Raised (AdmissionRejected N)"
    using r1 by (simp add: mN_def)
  show "fst (step tb (snd (step ta (snd (runOps m ops)) (CancelOp i))) another)
            = Raised (AdmissionRejected N)" using r2 by (simp add: mN_def)
  show "fst (step tb (finishSingleShot ta (snd (runOps m ops)) i r) another) = StartedJob k"
    using r3 by (simp add: mN_def)
  show "fst (step tb (finishLoop ta (snd (runOps m ops)) i lr) another) = StartedJob k"
    using r4 by (simp add: mN_def)
qed

text \<open>The amended claim C5 with two slots, a single-shot job and a loop job.\<close>

theorem admission_counts_executions_witness:
  "maxConcurrentJobs managerTwoSlots = Some 2
   \<and> startedIds [(1, startJob1), (2, startLoop1)] = [''job-1'', ''loop-1'']
   \<and> fst (runOps managerTwoSlots [(1, startJob1), (2, startLoop1)])
        = [StartedJob ''job-1'', StartedJob ''loop-1'']
   \<and> getRunningCount (snd (runOps managerTwoSlots [(1, startJob1), (2, startLoop1)])) = 2
   \<and> fst (step 5 (snd (runOps managerTwoSlots [(1, startJob1), (2, startLoop1)])) startJob2)
        = Raised (AdmissionRejected 2)
   \<and> fst (step 7 (finishSingleShot 6
              (snd (runOps managerTwoSlots [(1, startJob1), (2, startLoop1)]))
              ''job-1'' workerDone) startJob2)
        = StartedJob ''job-2''"
proof -
  have ids: "startedIds [(1, startJob1), (2, startLoop1)] = [''job-1'', ''loop-1'']"
    by (simp add: startedIds_def startJob1_def startLoop1_def)
  have h: "maxConcurrentJobs managerTwoSlots = Some 2 \<and> runningJobs managerTwoSlots = []
      \<and> allStarts [(1, startJob1), (2, startLoop1)]
      \<and> distinct (startedIds [(1, startJob1), (2, startLoop1)])
      \<and> length [(1::int, startJob1), (2, startLoop1)] = 2
      \<and> startedId startJob2 = Some ''job-2''
      \<and> ''job-1'' \<in> set (startedIds [(1, startJob1), (2, startLoop1)])"
    unfolding ids
    by (simp add: managerTwoSlots_def newJobManager_def allStarts_def startJob1_def
        startLoop1_def startJob2_def)
  from admission_counts_executions [where m = managerTwoSlots and N = 2
      and ops = "[(1, startJob1), (2, startLoop1)]" and i = "''job-1''"
      and k = "''job-2''" and another = startJob2 and ta = 5 and tb = 7,
      THEN conjunct2, THEN conjunct2, rule_format, OF h, of workerDone]
  have "fst (runOps managerTwoSlots [(1, startJob1), (2, startLoop1)])
        = map StartedJob (startedIds [(1, startJob1), (2, startLoop1)])"
    "getRunningCount (snd (runOps managerTwoSlots [(1, startJob1), (2, startLoop1)])) = 2"
    "fst (step 5 (snd (runOps managerTwoSlots [(1, startJob1), (2, startLoop1)])) startJob2)
        = Raised (AdmissionRejected 2)"
    by simp_all
  moreover
  from admission_counts_executions [where m = managerTwoSlots and N = 2
      and ops = "[(1, startJob1), (2, startLoop1)]" and i = "''job-1''"
      and k = "''job-2''" and another = startJob2 and ta = 6 and tb = 7
      and r = workerDone,
      THEN conjunct2, THEN conjunct2, rule_format, OF h]
  have "fst (step 7 (finishSingleShot 6
              (snd (runOps managerTwoSlots [(1, startJob1), (2, startLoop1)]))
              ''job-1'' workerDone) startJob2)
        = StartedJob ''job-2''"
    by simp
  ultimately show ?thesis using h ids by simp
qed

text \<open>
  Claim C5 as stated fails: with one job allowed at a time, \<^verbatim>\<open>job-1\<close> is started and
  cancelled, so that the only job of the store is in a terminal status, and the next
  start is rejected.
\<close>

theorem cancel_frees_no_slot:
  "fst (runOps managerOneSlot [(1, startJob1), (3, CancelOp ''job-1''), (4, startJob2)])
     = [StartedJob ''job-1'', CancelResult True, Raised (AdmissionRejected 1)]
   \<and> jobs (store (snd (runOps managerOneSlot [(1, startJob1), (3, CancelOp ''job-1'')])))
     = [''job-1'' \<mapsto> jobCancelled]
   \<and> isTerminal (status jobCancelled)
   \<and> maxConcurrentJobs managerOneSlot = Some 1"
proof -
  have a: "fst (runOps managerOneSlot [(1, startJob1), (3, CancelOp ''job-1''), (4, startJob2)])
     = [StartedJob ''job-1'', CancelResult True, Raised (AdmissionRejected 1)]"
    by code_simp
  have b: "jobs (store (snd (runOps managerOneSlot [(1, startJob1), (3, CancelOp ''job-1'')])))
     = [''job-1'' \<mapsto> jobCancelled]"
    by (simp add: managerOneSlot_def startJob1_def newJobManager_def newJobStore_def
        startSingleShot_def ensureInitialized_def initialize_def limitReached_def Let_def
        save_def createSingleShotJob_def beginExecution_def updateStatus_def
        updateProgress_def isTerminal_def mergeProgress_def messageOnly_def noProgress_def
        orElse_def keySet_def cancel_def get_def jobCancelled_def)
  have c: "isTerminal (status jobCancelled)" "maxConcurrentJobs managerOneSlot = Some 1"
    by (simp_all add: isTerminal_def jobCancelled_def managerOneSlot_def newJobManager_def)
  from a b c show ?thesis by blast
qed

end
